theory Spec2Isabelle
  imports Complex_Main "HOL-Library.AList" "HOL-Library.Sublist"
begin

section \<open>gimme.js: a small HTTP/S request function\<close>

text \<open>
  The module exports one function, \<^verbatim>\<open>request(requestOptions)\<close>. It fills in the
  defaults of the options object, and returns a promise whose executor resolves the
  options to one network call, issues it, and reacts to the events of that call: a
  response is followed (a redirect), rejected (4xx, 5xx) or collected; a transport error
  and a socket timeout reject.

  The embedding keeps the order of the source. What the source takes from the platform
  (\<^verbatim>\<open>url.parse\<close>, \<^verbatim>\<open>querystring.stringify\<close>, \<^verbatim>\<open>JSON.stringify\<close>,
  \<^verbatim>\<open>String.prototype.toUpperCase\<close>, and the network) is a parameter of the model.

  A JavaScript string is a sequence of UTF-16 code units and \<^verbatim>\<open>.length\<close> counts
  them. The model writes strings as \<^typ>\<open>string\<close>, one \<^typ>\<open>char\<close> for one code unit
  below 256. \<^verbatim>\<open>undefined\<close> and \<^verbatim>\<open>null\<close> are \<^term>\<open>None\<close>.
\<close>

subsection \<open>Numbers\<close>

text \<open>
  A JavaScript number is a binary64 value: not a number, one of the two infinities, or a
  finite value, written here as the rational it stands for (the properties below name
  whole numbers and one half, which are such values). The two zeros are one value: the
  code compares a number with 0 and takes 1 from it, and neither tells them apart.
\<close>

datatype number = NaN | Infinity | NegInfinity | Finite rat

text \<open>\<^verbatim>\<open>x > 0\<close>.\<close>

fun positive :: "number \<Rightarrow> bool" where
  "positive (Finite x) = (0 < x)"
| "positive Infinity = True"
| "positive NegInfinity = False"
| "positive NaN = False"

text \<open>
  The result of an operation is the exact result rounded to the nearest binary64 value,
  to the one with an even significand when two are as near. For a positive \<open>a\<close>,
  \<open>binade a\<close> is the exponent \<open>e\<close> with \<open>two_to e \<le> a < two_to (e + 1)\<close>, found from
  the number of bits of the whole part of \<open>a\<close>, or of \<open>1 / a\<close> when \<open>a\<close> is below 1.
  The binary64 values from \<open>two_to e\<close> to \<open>two_to (e + 1)\<close> have 53 bits of
  significand and are \<open>two_to (e - 52)\<close> apart; below \<open>two_to (- 1022)\<close> they stay
  \<open>two_to (- 1074)\<close> apart. A rounded result of \<open>two_to 1024\<close> or more is an infinity.
\<close>

fun bit_length :: "nat \<Rightarrow> nat" where
  "bit_length n = (if n = 0 then 0 else Suc (bit_length (n div 2)))"

declare bit_length.simps [simp del]

definition binade :: "rat \<Rightarrow> int" where
  "binade a =
     (if 1 \<le> a then int (bit_length (nat \<lfloor>a\<rfloor>)) - 1
      else - int (bit_length (nat (\<lceil>1 / a\<rceil> - 1))))"

definition two_to :: "int \<Rightarrow> rat" where
  "two_to e = (if 0 \<le> e then 2 ^ nat e else 1 / 2 ^ nat (- e))"

definition nearest_even :: "rat \<Rightarrow> int" where
  "nearest_even q =
     (let f = \<lfloor>q\<rfloor>; d = q - of_int f
      in if d < 1 / 2 then f else if 1 / 2 < d then f + 1 else if even f then f else f + 1)"

definition to_double :: "rat \<Rightarrow> number" where
  "to_double x =
     (if x = 0 then Finite 0
      else let u = two_to (max (binade \<bar>x\<bar>) (- 1022) - 52);
               y = of_int (nearest_even (\<bar>x\<bar> / u)) * u
           in if two_to 1024 \<le> y then (if 0 < x then Infinity else NegInfinity)
              else Finite (sgn x * y))"

text \<open>\<^verbatim>\<open>--x\<close>.\<close>

fun decrement :: "number \<Rightarrow> number" where
  "decrement (Finite x) = to_double (x - 1)"
| "decrement Infinity = Infinity"
| "decrement NegInfinity = NegInfinity"
| "decrement NaN = NaN"

declare decrement.simps(1) [simp del]

subsection \<open>Values\<close>

text \<open>A header value set by the code is a string or a number (\<^verbatim>\<open>postData.length\<close>).\<close>

datatype hval = Str string | Num nat

text \<open>The object returned by \<^verbatim>\<open>url.parse\<close>, with the four fields the code reads.\<close>

record url_object =
  protocol :: "string option"
  hostname :: "string option"
  port :: "string option"
  path :: "string option"

text \<open>The capabilities of the platform, for a body of type \<^typ>\<open>'b\<close>.\<close>

record 'b platform =
  url_parse :: "string \<Rightarrow> url_object"
  toUpperCase :: "string \<Rightarrow> string"
  JSON_stringify :: "'b \<Rightarrow> string"
  querystring_stringify :: "'b \<Rightarrow> string"
  JSON_stringify_headers :: "(string \<times> string) list \<Rightarrow> string"

text \<open>
  \<^verbatim>\<open>requestOptions\<close>. A field the caller left out is \<^term>\<open>None\<close>; for
  \<^verbatim>\<open>url\<close> and \<^verbatim>\<open>body\<close> so is \<^verbatim>\<open>null\<close>. The fields have the types the
  header comment of the source gives them; \<^verbatim>\<open>maxRedirects\<close> and \<^verbatim>\<open>timeout\<close> are
  numbers, and the code takes any number. The field \<open>req_method\<close> is the \<^verbatim>\<open>method\<close> of the source.
\<close>

record 'b request_options =
  url :: "string option"
  req_method :: "string option"
  body :: "'b option"
  contentType :: "string option"
  followRedirect :: "bool option"
  maxRedirects :: "number option"
  timeout :: "number option"
  headers :: "(string \<times> hval) list option"

text \<open>
  The call handed to the platform: the module chosen at line 130, the \<^verbatim>\<open>options\<close>
  object of lines 82-127, the payload written at line 213 and the time set on the
  socket at line 201.
\<close>

datatype module = Http | Https

datatype port_value = PortNum nat | PortStr string | PortNull

record call =
  lib :: module
  o_hostname :: "string option"
  o_path :: "string option"
  o_method :: "string option"
  o_port :: port_value
  o_headers :: "(string \<times> hval) list option"
  postData :: "string option"
  socket_timeout :: "number option"

text \<open>The settled values: \<^verbatim>\<open>requestResult\<close>, \<^verbatim>\<open>infoObj\<close>/\<^verbatim>\<open>errObj\<close>.\<close>

record request_result =
  res_status :: nat
  res_headers :: string
  res_body :: string

record info =
  code :: "string option"
  msg :: "string option"

text \<open>
  \<^verbatim>\<open>reject\<close> is called with a string (lines 70 and 208, the text that
  \<^verbatim>\<open>JSON.stringify\<close> makes of \<^verbatim>\<open>infoObj\<close>), with an object (lines 160, 166 and
  197), or by the promise constructor with the \<^verbatim>\<open>TypeError\<close> its executor threw.
\<close>

datatype rejection = RejText string | RejObj info | RejTypeError

datatype promise = Pending | Resolved request_result | Rejected rejection

text \<open>
  What the network delivers for one call. A request gets at most one response, and none
  after it was aborted or has failed. So a call is silent for ever, or its socket times
  out first, or the request fails first (with the \<^verbatim>\<open>code\<close> and \<^verbatim>\<open>syscall\<close> of the
  error, which may be missing), or the response comes, with its status and headers (the
  names in lower case, as Node gives them), followed by the later events of the call in
  their order: a chunk, the end of the response, a timeout of the socket, an error of
  the request.
\<close>

datatype event =
    Data string
  | End
  | SocketTimeout
  | ReqError "string option" "string option"

datatype transport =
    Silent
  | TimedOut
  | Failed "string option" "string option"
  | Response nat "(string \<times> string) list" "event list"

subsection \<open>Helpers of the language\<close>

text \<open>A string in a condition: \<^verbatim>\<open>undefined\<close>, \<^verbatim>\<open>null\<close> and \<^verbatim>\<open>''\<close> are false.\<close>

definition truthy :: "string option \<Rightarrow> bool" where
  "truthy s = (case s of None \<Rightarrow> False | Some v \<Rightarrow> v \<noteq> [])"

text \<open>A string or \<^verbatim>\<open>null\<close> as an operand of \<^verbatim>\<open>+\<close> with a string.\<close>

definition to_string :: "string option \<Rightarrow> string" where
  "to_string s = (case s of None \<Rightarrow> ''null'' | Some v \<Rightarrow> v)"

text \<open>A non-negative whole number as an operand of \<^verbatim>\<open>+\<close> with a string.\<close>

definition digit :: "nat \<Rightarrow> char" where
  "digit d = ''0123456789'' ! d"

fun decimal :: "nat \<Rightarrow> string" where
  "decimal n = (if n < 10 then [digit n] else decimal (n div 10) @ [digit (n mod 10)])"

declare decimal.simps [simp del]

text \<open>The length in bytes of a string written to the request, which is sent as UTF-8.\<close>

definition utf8_length :: "string \<Rightarrow> nat" where
  "utf8_length s = sum_list (map (\<lambda>c. if (of_char c :: nat) < 128 then 1 else 2) s)"

text \<open>\<^verbatim>\<open>JSON.stringify\<close> of the two constant objects of lines 66 and 204.\<close>

definition url_missing_text :: string where
  "url_missing_text =
     [CHR ''{'', CHR 0x22] @ ''code'' @ [CHR 0x22, CHR '':'', CHR 0x22] @ ''ERR'' @
     [CHR 0x22, CHR '','', CHR 0x22] @ ''msg'' @ [CHR 0x22, CHR '':'', CHR 0x22] @
     ''URL MISSING'' @ [CHR 0x22, CHR ''}'']"

definition timeout_text :: string where
  "timeout_text =
     [CHR ''{'', CHR 0x22] @ ''code'' @ [CHR 0x22, CHR '':'', CHR 0x22] @ ''ERR'' @
     [CHR 0x22, CHR '','', CHR 0x22] @ ''msg'' @ [CHR 0x22, CHR '':'', CHR 0x22] @
     ''timeout'' @ [CHR 0x22, CHR ''}'']"

subsection \<open>Lines 53-60: defaults\<close>

definition defaults :: "'b platform \<Rightarrow> 'b request_options \<Rightarrow> 'b request_options" where
  "defaults P ro = ro
     \<lparr> req_method := Some (case req_method ro of None \<Rightarrow> ''GET'' | Some m \<Rightarrow> toUpperCase P m),
       contentType := Some (case contentType ro of None \<Rightarrow> ''FORM'' | Some c \<Rightarrow> toUpperCase P c),
       followRedirect := Some (case followRedirect ro of None \<Rightarrow> True | Some f \<Rightarrow> f),
       maxRedirects := Some (case maxRedirects ro of None \<Rightarrow> Finite 10 | Some n \<Rightarrow> n),
       timeout := Some (case timeout ro of None \<Rightarrow> Finite 10000 | Some t \<Rightarrow> t),
       headers := Some (case headers ro of None \<Rightarrow> [] | Some h \<Rightarrow> h) \<rparr>"

subsection \<open>Lines 65-130: from the options to the call\<close>

text \<open>Line 74: the regular expression \<^verbatim>\<open>/^http[s]?\:\/\//\<close> matches.\<close>

definition has_scheme :: "string \<Rightarrow> bool" where
  "has_scheme u \<longleftrightarrow> prefix ''http://'' u \<or> prefix ''https://'' u"

definition backfill :: "string \<Rightarrow> string" where
  "backfill u = (if has_scheme u then u else ''http://'' @ u)"

text \<open>Lines 89-97.\<close>

definition define_port :: "url_object \<Rightarrow> port_value" where
  "define_port requestObject =
     (if port requestObject = None \<and> protocol requestObject = None then PortNum 80
      else if port requestObject = None \<and> protocol requestObject = Some ''https:'' then PortNum 443
      else if port requestObject = None \<and> protocol requestObject = Some ''http:'' then PortNum 80
      else (case port requestObject of None \<Rightarrow> PortNull | Some p \<Rightarrow> PortStr p))"

text \<open>Lines 112-125: the two headers; \<^verbatim>\<open>options.headers\<close> is the caller's object.\<close>

definition content_type_of :: "string option \<Rightarrow> string" where
  "content_type_of ct =
     (if ct = Some ''JSON'' then ''application/json''
      else if ct = Some ''FORM'' then ''application/x-www-form-urlencoded''
      else ''application/x-www-form-urlencoded'')"

definition set_headers :: "string option \<Rightarrow> string \<Rightarrow> (string \<times> hval) list \<Rightarrow> (string \<times> hval) list" where
  "set_headers ct data h =
     AList.update ''Content-Length'' (Num (length data))
       (AList.update ''Content-Type'' (Str (content_type_of ct)) h)"

text \<open>
  The executor up to the call. At line 65 a missing url rejects, and the executor goes
  on to line 74, where \<^verbatim>\<open>requestOptions.url.search\<close> throws on \<^verbatim>\<open>null\<close>: the
  executor ends there, the promise stays rejected with the text of line 70. The result is
  the rejection or the call, each with the options as the executor left them.
\<close>

definition prepare ::
  "'b platform \<Rightarrow> 'b request_options \<Rightarrow> (rejection \<times> 'b request_options) + ('b request_options \<times> call)" where
  "prepare P ro =
     (case url ro of
        None \<Rightarrow> Inl (RejText url_missing_text, ro)
      | Some u \<Rightarrow>
          let u' = backfill u;
              requestObject = url_parse P u';
              l = (if prefix ''https'' u' then Https else Http);
              c = \<lparr> lib = l,
                    o_hostname = hostname requestObject,
                    o_path = path requestObject,
                    o_method = req_method ro,
                    o_port = define_port requestObject,
                    o_headers = headers ro,
                    postData = None,
                    socket_timeout = timeout ro \<rparr>
          in (case body ro of
                None \<Rightarrow> Inr (ro\<lparr>url := Some u'\<rparr>, c)
              | Some b \<Rightarrow>
                  if req_method ro = Some ''GET''
                  then Inr (ro\<lparr>url := Some u'\<rparr>,
                            c\<lparr>o_path := Some (to_string (path requestObject) @ ''?'' @ querystring_stringify P b)\<rparr>)
                  else (case headers ro of
                          None \<Rightarrow> Inl (RejTypeError, ro\<lparr>url := Some u'\<rparr>)
                        | Some h \<Rightarrow>
                            let data = JSON_stringify P b;
                                h' = set_headers (contentType ro) data h
                            in Inr (ro\<lparr>url := Some u', headers := Some h'\<rparr>,
                                    c\<lparr>o_headers := Some h', postData := Some data\<rparr>))))"

subsection \<open>Lines 133-210: the events of one call\<close>

text \<open>The promise of one call, the chunks pushed so far, and whether the request was aborted.\<close>

record attempt_state =
  settled :: promise
  chunks :: "string list"
  aborted :: bool

text \<open>\<^verbatim>\<open>resolve\<close> and \<^verbatim>\<open>reject\<close> act on a pending promise only.\<close>

fun settle :: "promise \<Rightarrow> promise \<Rightarrow> promise" where
  "settle Pending p = p"
| "settle q p = q"

text \<open>
  The handlers of lines 173, 182, 192 and 202, for a response of status \<open>st\<close> and
  headers \<open>hs\<close> that reached line 170.
\<close>

fun on_event :: "'b platform \<Rightarrow> nat \<Rightarrow> (string \<times> string) list \<Rightarrow> attempt_state \<Rightarrow> event \<Rightarrow> attempt_state" where
  "on_event P st hs s (Data chunk) = s\<lparr>chunks := chunks s @ [chunk]\<rparr>"
| "on_event P st hs s End =
     s\<lparr>settled := settle (settled s)
          (Resolved \<lparr>res_status = st, res_headers = JSON_stringify_headers P hs,
                     res_body = concat (chunks s)\<rparr>)\<rparr>"
| "on_event P st hs s SocketTimeout =
     s\<lparr>aborted := True, settled := settle (settled s) (Rejected (RejText timeout_text))\<rparr>"
| "on_event P st hs s (ReqError c sc) =
     s\<lparr>settled := settle (settled s) (Rejected (RejObj \<lparr>code = c, msg = sc\<rparr>))\<rparr>"

definition collect :: "'b platform \<Rightarrow> nat \<Rightarrow> (string \<times> string) list \<Rightarrow> promise \<Rightarrow> event list \<Rightarrow> attempt_state" where
  "collect P st hs p evs = foldl (on_event P st hs) \<lparr>settled = p, chunks = [], aborted = False\<rparr> evs"

text \<open>
  What one call comes to: the redirect is followed with the options changed at lines
  142-143 or 148-149 (the request is aborted, and the promise takes the outcome of the
  next call), or the promise of this call is left as the events made it.
\<close>

datatype 'b attempt_result = Follow "'b request_options" | Finished attempt_state

text \<open>
  Lines 139-167, then the events after the response. At line 148
  \<^verbatim>\<open>requestOptions.url\<close> is the string that line 75 left; were it missing,
  \<^verbatim>\<open>url.parse\<close> would throw inside the callback and nothing would settle.
\<close>

definition on_response ::
  "'b platform \<Rightarrow> 'b request_options \<Rightarrow> nat \<Rightarrow> (string \<times> string) list \<Rightarrow> event list \<Rightarrow> 'b attempt_result" where
  "on_response P ro st hs evs =
     (let location = map_of hs ''location'' in
      if (300 \<le> st \<and> st < 400) \<and> truthy location then
        if followRedirect ro = Some True \<and> (case maxRedirects ro of None \<Rightarrow> False | Some n \<Rightarrow> positive n) then
          if truthy (hostname (url_parse P (to_string location)))
          then Follow (ro\<lparr>url := location, maxRedirects := map_option decrement (maxRedirects ro)\<rparr>)
          else (case url ro of
                  None \<Rightarrow> Finished \<lparr>settled = Pending, chunks = [], aborted = False\<rparr>
                | Some u \<Rightarrow>
                    Follow (ro\<lparr>url := Some (to_string (hostname (url_parse P u)) @ to_string location),
                              maxRedirects := map_option decrement (maxRedirects ro)\<rparr>))
        else Finished (collect P st hs Pending evs)
      else if 400 \<le> st \<and> st < 500 then
        Finished (collect P st hs
          (Rejected (RejObj \<lparr>code = Some ''ERR'', msg = Some (''CLIENT ERROR: '' @ decimal st)\<rparr>)) evs)
      else if 500 \<le> st then
        Finished (collect P st hs
          (Rejected (RejObj \<lparr>code = Some ''ERR'', msg = Some (''SERVER ERROR: '' @ decimal st)\<rparr>)) evs)
      else Finished (collect P st hs Pending evs))"

text \<open>
  A call that gets no response: nothing happens, or the socket times out (lines
  202-208), or the request fails (lines 192-197).
\<close>

definition attempt :: "'b platform \<Rightarrow> 'b request_options \<Rightarrow> transport \<Rightarrow> 'b attempt_result" where
  "attempt P ro t =
     (case t of
        Silent \<Rightarrow> Finished \<lparr>settled = Pending, chunks = [], aborted = False\<rparr>
      | TimedOut \<Rightarrow> Finished \<lparr>settled = Rejected (RejText timeout_text), chunks = [], aborted = True\<rparr>
      | Failed c sc \<Rightarrow> Finished \<lparr>settled = Rejected (RejObj \<lparr>code = c, msg = sc\<rparr>), chunks = [], aborted = False\<rparr>
      | Response st hs evs \<Rightarrow> on_response P ro st hs evs)"

text \<open>
  The conditions of lines 139 and 140 together: the response of status \<open>st\<close> and
  headers \<open>hs\<close> is a redirect that the options \<open>ro\<close> let the code follow.
\<close>

definition follows :: "'b request_options \<Rightarrow> nat \<Rightarrow> (string \<times> string) list \<Rightarrow> bool" where
  "follows ro st hs \<longleftrightarrow>
     (300 \<le> st \<and> st < 400) \<and> truthy (map_of hs ''location'') \<and>
     followRedirect ro = Some True \<and> (case maxRedirects ro of None \<Rightarrow> False | Some n \<Rightarrow> positive n)"

subsection \<open>The whole request\<close>

text \<open>
  One entry for each call issued: the options as the executor left them before the
  call, the call, and whether the request was aborted.
\<close>

record 'b attempt_log =
  options :: "'b request_options"
  issued :: call
  was_aborted :: bool

text \<open>
  What a request comes to: the promise handed to the caller, the calls issued, whether
  a \<^verbatim>\<open>TypeError\<close> left the callback of a response uncaught, and the options object
  as the request left it.
\<close>

record 'b run =
  outcome :: promise
  attempts :: "'b attempt_log list"
  uncaught :: bool
  final :: "'b request_options"

text \<open>
  Lines 145 and 151 call \<^verbatim>\<open>this.request(requestOptions)\<close>. The callbacks of lines 63
  and 133 are arrow functions, so \<^verbatim>\<open>this\<close> is the receiver of the call of
  \<^verbatim>\<open>request\<close> itself: the exported object when the function is called as
  \<^verbatim>\<open>gimme.request(...)\<close>, as the header comment shows, and then \<^verbatim>\<open>this.request\<close>
  is this function; or something else when the function is called detached, and then
  \<^verbatim>\<open>this.request\<close> is not a function.
\<close>

datatype receiver = Module | Detached

text \<open>The counter as line 58 leaves it: the caller's number, whatever it is, or 10.\<close>

definition redirects_left :: "'b request_options \<Rightarrow> number" where
  "redirects_left ro = (case maxRedirects ro of None \<Rightarrow> Finite 10 | Some n \<Rightarrow> n)"

text \<open>
  The network is a function of the number of the call and of the call. A followed
  redirect has changed the url and the counter and aborted the request when it comes
  to \<^verbatim>\<open>this.request\<close>. Called as a method, the function runs again on the same
  object, and the promise handed to the caller takes the outcome of that call. Called
  detached, line 145 or 151 throws: \<^verbatim>\<open>resolve\<close> is not reached, the promise stays
  pending and the error is uncaught. Nothing bounds the number of calls: a request
  whose every call is followed has no result, \<^term>\<open>None\<close>.
\<close>

partial_function (option) request_from ::
  "'b platform \<Rightarrow> receiver \<Rightarrow> (nat \<Rightarrow> call \<Rightarrow> transport) \<Rightarrow> nat \<Rightarrow> 'b request_options
     \<Rightarrow> 'b run option" where
  "request_from P this net i requestOptions =
     (case prepare P (defaults P requestOptions) of
        Inl (r, ro) \<Rightarrow> Some \<lparr>outcome = Rejected r, attempts = [], uncaught = False, final = ro\<rparr>
      | Inr (ro, c) \<Rightarrow>
          (case attempt P ro (net i c) of
             Finished s \<Rightarrow>
               Some \<lparr>outcome = settled s,
                     attempts = [\<lparr>options = ro, issued = c, was_aborted = aborted s\<rparr>],
                     uncaught = False, final = ro\<rparr>
           | Follow ro' \<Rightarrow>
               (case this of
                  Detached \<Rightarrow>
                    Some \<lparr>outcome = Pending,
                          attempts = [\<lparr>options = ro, issued = c, was_aborted = True\<rparr>],
                          uncaught = True, final = ro'\<rparr>
                | Module \<Rightarrow>
                    Option.bind (request_from P this net (Suc i) ro')
                      (\<lambda>r. Some (r\<lparr>attempts :=
                              \<lparr>options = ro, issued = c, was_aborted = True\<rparr> # attempts r\<rparr>)))))"

definition request ::
  "'b platform \<Rightarrow> receiver \<Rightarrow> (nat \<Rightarrow> call \<Rightarrow> transport) \<Rightarrow> 'b request_options \<Rightarrow> 'b run option" where
  "request P this net requestOptions = request_from P this net 0 requestOptions"

text \<open>
  The call number \<open>k\<close> of a request, counted from 0, with the options as the executor
  left them before it: there is one when the \<open>k\<close> calls before it were each followed
  and led to a new call.
\<close>

fun call_from ::
  "'b platform \<Rightarrow> receiver \<Rightarrow> (nat \<Rightarrow> call \<Rightarrow> transport) \<Rightarrow> nat \<Rightarrow> 'b request_options \<Rightarrow> nat
     \<Rightarrow> ('b request_options \<times> call) option" where
  "call_from P this net i requestOptions 0 =
     (case prepare P (defaults P requestOptions) of Inl x \<Rightarrow> None | Inr y \<Rightarrow> Some y)"
| "call_from P this net i requestOptions (Suc k) =
     (case prepare P (defaults P requestOptions) of
        Inl x \<Rightarrow> None
      | Inr (ro, c) \<Rightarrow>
          (case attempt P ro (net i c) of
             Finished s \<Rightarrow> None
           | Follow ro' \<Rightarrow>
               (case this of
                  Detached \<Rightarrow> None
                | Module \<Rightarrow> call_from P this net (Suc i) ro' k)))"

definition call_at ::
  "'b platform \<Rightarrow> receiver \<Rightarrow> (nat \<Rightarrow> call \<Rightarrow> transport) \<Rightarrow> 'b request_options \<Rightarrow> nat
     \<Rightarrow> ('b request_options \<times> call) option" where
  "call_at P this net requestOptions k = call_from P this net 0 requestOptions k"

subsection \<open>A platform for examples\<close>

text \<open>
  The examples take a body and the headers of a response as lists of keys and values
  that need no escaping: \<^verbatim>\<open>JSON.stringify\<close> gives the keys and values between
  quotes, \<^verbatim>\<open>querystring.stringify\<close> gives them joined by \<^verbatim>\<open>=\<close> and \<^verbatim>\<open>&\<close>.
  \<^verbatim>\<open>toUpperCase\<close> is given on the letters a to z, and \<^verbatim>\<open>url.parse\<close> on the
  few URLs the examples use, with the fields that Node's parser gives for them.
\<close>

definition quoted :: "string \<Rightarrow> string" where
  "quoted s = [CHR 0x22] @ s @ [CHR 0x22]"

fun joined :: "string \<Rightarrow> string list \<Rightarrow> string" where
  "joined sep [] = []"
| "joined sep [x] = x"
| "joined sep (x # y # ys) = x @ sep @ joined sep (y # ys)"

definition example_json :: "(string \<times> string) list \<Rightarrow> string" where
  "example_json kvs = ''{'' @ joined '','' (map (\<lambda>(k, v). quoted k @ '':'' @ quoted v) kvs) @ ''}''"

definition example_query :: "(string \<times> string) list \<Rightarrow> string" where
  "example_query kvs = joined ''&'' (map (\<lambda>(k, v). k @ ''='' @ v) kvs)"

definition example_upper :: "string \<Rightarrow> string" where
  "example_upper s =
     map (\<lambda>c. case map_of (zip ''abcdefghijklmnopqrstuvwxyz'' ''ABCDEFGHIJKLMNOPQRSTUVWXYZ'') c of
                 None \<Rightarrow> c | Some C \<Rightarrow> C) s"

definition parsed :: "string option \<Rightarrow> string option \<Rightarrow> string option \<Rightarrow> string option \<Rightarrow> url_object" where
  "parsed pr h po pa = \<lparr>protocol = pr, hostname = h, port = po, path = pa\<rparr>"

definition example_parse :: "string \<Rightarrow> url_object" where
  "example_parse s =
     (if s = ''http://example.com/a'' then parsed (Some ''http:'') (Some ''example.com'') None (Some ''/a'')
      else if s = ''http://example.com/b'' then parsed (Some ''http:'') (Some ''example.com'') None (Some ''/b'')
      else if s = ''https://example.com/a'' then parsed (Some ''https:'') (Some ''example.com'') None (Some ''/a'')
      else if s = ''http://example.com:8080/a'' then parsed (Some ''http:'') (Some ''example.com'') (Some ''8080'') (Some ''/a'')
      else if s = ''https://https/'' then parsed (Some ''https:'') (Some ''https'') None (Some ''/'')
      else if s = ''https://foo'' then parsed (Some ''https:'') (Some ''foo'') None (Some ''/'')
      else parsed None None None (Some s))"

definition example_platform :: "(string \<times> string) list platform" where
  "example_platform =
     \<lparr>url_parse = example_parse, toUpperCase = example_upper, JSON_stringify = example_json,
      querystring_stringify = example_query, JSON_stringify_headers = example_json\<rparr>"

text \<open>The options object with the url only.\<close>

definition only_url :: "string option \<Rightarrow> (string \<times> string) list request_options" where
  "only_url u = \<lparr>url = u, req_method = None, body = None, contentType = None,
     followRedirect = None, maxRedirects = None, timeout = None, headers = None\<rparr>"

text \<open>
  Networks for the examples: one that never answers, one whose sockets time out, and
  one that answers the first call with a redirect to a location and is silent after it.
  \<open>where_to\<close> reads off a call the url it was made for, the module and the port.
\<close>

definition silent :: "nat \<Rightarrow> call \<Rightarrow> transport" where
  "silent i c = Silent"

definition times_out :: "nat \<Rightarrow> call \<Rightarrow> transport" where
  "times_out i c = TimedOut"

definition redirects_once_to :: "string \<Rightarrow> nat \<Rightarrow> call \<Rightarrow> transport" where
  "redirects_once_to loc i c = (if i = 0 then Response 302 [(''location'', loc)] [] else Silent)"

definition where_to :: "'b attempt_log \<Rightarrow> string option \<times> module \<times> port_value" where
  "where_to a = (url (options a), lib (issued a), o_port (issued a))"

text \<open>\<open>sent\<close> reads off a call its payload, the payload's length in bytes and its headers.\<close>

definition sent :: "'b attempt_log \<Rightarrow> string option \<times> nat option \<times> (string \<times> hval) list option" where
  "sent a = (postData (issued a), map_option utf8_length (postData (issued a)), o_headers (issued a))"

text \<open>
  Two more networks: one that answers every call with a redirect to a location, and one
  that answers the first \<open>n\<close> calls so and the next with a response of status 200 in
  two chunks. The last definitions read off the result of a request its outcome, and of
  its calls where they went, what they sent and the counter they were made at; and the
  outcome with the number of calls and whether an error was left uncaught.
\<close>

definition redirects_always_to :: "string \<Rightarrow> nat \<Rightarrow> call \<Rightarrow> transport" where
  "redirects_always_to loc i c = Response 302 [(''location'', loc)] [End]"

definition redirects_then_answers :: "nat \<Rightarrow> string \<Rightarrow> nat \<Rightarrow> call \<Rightarrow> transport" where
  "redirects_then_answers n loc i c =
     (if i < n then Response 302 [(''location'', loc)] []
      else Response 200 [] [Data ''ab'', Data ''cd'', End])"

definition settled_as :: "'b run option \<Rightarrow> promise option" where
  "settled_as x = map_option outcome x"

definition calls_to :: "'b run option \<Rightarrow> (string option \<times> module \<times> port_value) list option" where
  "calls_to x = map_option (\<lambda>r. map where_to (attempts r)) x"

definition payloads ::
  "'b run option \<Rightarrow> (string option \<times> nat option \<times> (string \<times> hval) list option) list option" where
  "payloads x = map_option (\<lambda>r. map sent (attempts r)) x"

definition counters :: "'b run option \<Rightarrow> number option list option" where
  "counters x = map_option (\<lambda>r. map (\<lambda>a. maxRedirects (options a)) (attempts r)) x"

definition summary :: "'b run option \<Rightarrow> (promise \<times> nat \<times> bool) option" where
  "summary x = map_option (\<lambda>r. (outcome r, length (attempts r), uncaught r)) x"

section \<open>Properties\<close>

subsection \<open>A settled promise stays as it is\<close>

lemma foldl_settled:
  "settled s \<noteq> Pending \<Longrightarrow> settled (foldl (on_event P st hs) s evs) = settled s"
proof (induction evs arbitrary: s)
  case Nil
  then show ?case by simp
next
  case (Cons e evs)
  from Cons.prems have "settled (on_event P st hs s e) = settled s"
    by (cases e; cases "settled s"; simp)
  with Cons show ?case by simp
qed

lemma collect_settled: "p \<noteq> Pending \<Longrightarrow> settled (collect P st hs p evs) = p"
  by (simp add: collect_def foldl_settled)

lemma url_defaults: "url (defaults P ro) = url ro"
  by (simp add: defaults_def)

subsection \<open>Numbers\<close>

lemma bit_length_le: "n < 2 ^ w \<Longrightarrow> bit_length n \<le> w"
proof (induction n arbitrary: w rule: bit_length.induct)
  case (1 n)
  show ?case
  proof (cases "n = 0")
    case True
    then show ?thesis by (simp add: bit_length.simps)
  next
    case False
    with "1.prems" obtain v where w: "w = Suc v"
      by (cases w) auto
    with "1.prems" have "n div 2 < 2 ^ v"
      by auto
    from "1.IH" [OF False this] False w show ?thesis
      by (simp add: bit_length.simps [of n])
  qed
qed

lemma bit_length_pos: "0 < n \<Longrightarrow> 0 < bit_length n"
  by (simp add: bit_length.simps [of n])

lemma bit_length_eq: "2 ^ k \<le> n \<Longrightarrow> n < 2 ^ Suc k \<Longrightarrow> bit_length n = Suc k"
proof (induction k arbitrary: n)
  case 0
  then have "n = 1" by simp
  then show ?case by (simp add: bit_length.simps)
next
  case (Suc k)
  then have "2 ^ k \<le> n div 2" and "n div 2 < 2 ^ Suc k" and "n \<noteq> 0"
    by auto
  with Suc.IH [of "n div 2"] show ?case
    by (simp add: bit_length.simps [of n])
qed

lemma nearest_even_of_int: "nearest_even (of_int k) = k"
  by (simp add: nearest_even_def)

lemma floor_numeral_quotient:
  "\<lfloor>(numeral a :: rat) / numeral b\<rfloor> = numeral a div numeral b"
  using floor_divide_of_int_eq [of "numeral a" "numeral b", where ?'a = rat] by simp

text \<open>A whole number below \<open>2 ^ 53\<close> is a binary64 value.\<close>

lemma to_double_whole:
  assumes "m < 2 ^ 53"
  shows "to_double (of_nat m) = Finite (of_nat m)"
proof (cases "m = 0")
  case True
  then show ?thesis by (simp add: to_double_def)
next
  case False
  define b where "b = bit_length m"
  from False assms have b: "0 < b" "b \<le> 53"
    by (simp_all add: b_def bit_length_pos bit_length_le)
  from False have e: "binade \<bar>of_nat m\<bar> = int b - 1"
    by (simp add: binade_def b_def)
  define j where "j = 53 - b"
  from b have u: "two_to (max (int b - 1) (- 1022) - 52) = 1 / 2 ^ j"
    by (cases "b = 53")
      (auto simp: two_to_def j_def nat_diff_distrib' intro!: arg_cong [where f = "\<lambda>n. (2::rat) ^ n"])
  have q: "(of_nat m :: rat) / (1 / 2 ^ j) = of_int (int m * 2 ^ j)"
    by simp
  have y: "of_int (nearest_even (\<bar>of_nat m :: rat\<bar> / (1 / 2 ^ j))) * (1 / 2 ^ j) = (of_nat m :: rat)"
    unfolding abs_of_nat q nearest_even_of_int by simp
  have "(of_nat m :: rat) < two_to 1024"
  proof -
    from assms have "(of_nat m :: rat) < of_nat (2 ^ 53)"
      by (simp only: of_nat_less_iff)
    also have "\<dots> \<le> two_to 1024"
      by (simp add: two_to_def)
    finally show ?thesis .
  qed
  with False e u y show ?thesis
    by (simp add: to_double_def Let_def)
qed

text \<open>
  Taking 1 from a whole number from 1 to \<open>2 ^ 53\<close> is exact. It is not beyond:
  \<open>2 ^ 54 - 1\<close> is no binary64 value and rounds back to \<open>2 ^ 54\<close>; nor is it for
  an infinity.
\<close>

lemma decrement_whole:
  assumes "Suc n \<le> 2 ^ 53"
  shows "decrement (Finite (of_nat (Suc n))) = Finite (of_nat n)"
  using to_double_whole [of n] assms by (simp add: decrement.simps)

lemma decrement_small:
  "decrement (Finite 10) = Finite 9" "decrement (Finite 2) = Finite 1"
  "decrement (Finite 1) = Finite 0"
  using decrement_whole [of 9] decrement_whole [of 1] decrement_whole [of 0] by simp_all

lemma decrement_stays:
  "decrement (Finite (2 ^ 54)) = Finite (2 ^ 54)"
  "decrement Infinity = Infinity"
proof -
  have "bit_length (2 ^ 54 - 1) = 54"
    using bit_length_eq [of 53 "2 ^ 54 - 1"] by simp
  then have "binade \<bar>2 ^ 54 - 1\<bar> = 53"
    by (simp add: binade_def)
  then show "decrement (Finite (2 ^ 54)) = Finite (2 ^ 54)"
    by (simp add: decrement.simps to_double_def two_to_def nearest_even_def Let_def
        floor_numeral_quotient)
next
  show "decrement Infinity = Infinity"
    by simp
qed

lemma decrement_half: "decrement (Finite (1 / 2)) = Finite (- (1 / 2))"
  by (simp add: decrement.simps to_double_def binade_def two_to_def nearest_even_def Let_def
      bit_length.simps)

subsection \<open>Collecting the body\<close>

lemma foldl_data:
  "foldl (on_event P st hs) s (map Data cs) = s\<lparr>chunks := chunks s @ cs\<rparr>"
  by (induction cs arbitrary: s) simp_all

lemma collect_end:
  "settled (collect P st hs Pending (map Data cs @ End # later))
     = Resolved \<lparr>res_status = st, res_headers = JSON_stringify_headers P hs, res_body = concat cs\<rparr>"
  by (simp add: collect_def foldl_data foldl_settled)

lemma collect_timeout:
  "settled (collect P st hs Pending (map Data cs @ SocketTimeout # later)) = Rejected (RejText timeout_text)
   \<and> aborted (collect P st hs Pending (map Data cs @ SocketTimeout # later))"
proof -
  have "aborted s \<Longrightarrow> aborted (foldl (on_event P st hs) s evs)" for s evs
  proof (induction evs arbitrary: s)
    case Nil
    then show ?case by simp
  next
    case (Cons e evs)
    from Cons.prems have "aborted (on_event P st hs s e)"
      by (cases e) simp_all
    then show ?case
      by (simp add: Cons.IH)
  qed
  then show ?thesis
    by (simp add: collect_def foldl_data foldl_settled)
qed

subsection \<open>One response\<close>

lemma on_response_follows:
  "follows ro st hs \<Longrightarrow> url ro = Some u \<Longrightarrow>
   \<exists>target. on_response P ro st hs evs
     = Follow (ro\<lparr>url := Some target, maxRedirects := map_option decrement (maxRedirects ro)\<rparr>)"
  by (auto simp: on_response_def follows_def truthy_def Let_def split: option.splits)

lemma on_response_collects:
  "\<not> follows ro st hs \<Longrightarrow> st < 400 \<Longrightarrow>
   on_response P ro st hs evs = Finished (collect P st hs Pending evs)"
  by (auto simp: on_response_def follows_def Let_def)

lemma on_response_4xx:
  assumes "400 \<le> st" "st < 500"
  shows "\<exists>s. on_response P ro st hs evs = Finished s \<and>
         settled s = Rejected (RejObj \<lparr>code = Some ''ERR'', msg = Some (''CLIENT ERROR: '' @ decimal st)\<rparr>)"
  using assms by (simp add: on_response_def Let_def collect_settled)

lemma on_response_5xx:
  assumes "500 \<le> st"
  shows "\<exists>s. on_response P ro st hs evs = Finished s \<and>
         settled s = Rejected (RejObj \<lparr>code = Some ''ERR'', msg = Some (''SERVER ERROR: '' @ decimal st)\<rparr>)"
  using assms by (simp add: on_response_def Let_def collect_settled)

text \<open>A followed redirect found the counter positive and left it one step lower.\<close>

lemma follow_counter:
  assumes "attempt P ro t = Follow ro'"
  shows "\<exists>n. maxRedirects ro = Some n \<and> positive n \<and> maxRedirects ro' = Some (decrement n)"
    and "timeout ro' = timeout ro"
  using assms
  by (auto simp: attempt_def on_response_def Let_def split: transport.splits if_splits option.splits)

subsection \<open>From the options to the call\<close>

lemma prepare_defaults:
  assumes "url ro = Some u"
  shows "\<exists>ro1 c. prepare P (defaults P ro) = Inr (ro1, c) \<and> url ro1 = Some (backfill u)
     \<and> followRedirect ro1 = Some (followRedirect ro \<noteq> Some False)
     \<and> maxRedirects ro1 = Some (redirects_left ro)
     \<and> lib c = (if prefix ''https'' (backfill u) then Https else Http)
     \<and> o_port c = define_port (url_parse P (backfill u))
     \<and> socket_timeout c = Some (case timeout ro of None \<Rightarrow> Finite 10000 | Some t \<Rightarrow> t)
     \<and> timeout ro1 = Some (case timeout ro of None \<Rightarrow> Finite 10000 | Some t \<Rightarrow> t)"
proof -
  have "followRedirect (defaults P ro) = Some (followRedirect ro \<noteq> Some False)"
    by (cases "followRedirect ro") (auto simp: defaults_def)
  moreover have "maxRedirects (defaults P ro) = Some (redirects_left ro)"
    and "url (defaults P ro) = Some u"
    and "\<exists>h. headers (defaults P ro) = Some h"
    and "timeout (defaults P ro) = Some (case timeout ro of None \<Rightarrow> Finite 10000 | Some t \<Rightarrow> t)"
    using assms by (simp_all add: defaults_def redirects_left_def)
  ultimately show ?thesis
    by (cases "body (defaults P ro)") (auto simp: prepare_def Let_def)
qed

lemma prepare_counter:
  assumes "prepare P (defaults P ro) = Inr (ro1, c)"
  shows "maxRedirects ro1 = Some (redirects_left ro)" and "\<exists>u. url ro1 = Some u"
    and "socket_timeout c = Some (case timeout ro of None \<Rightarrow> Finite 10000 | Some t \<Rightarrow> t)"
    and "timeout ro1 = Some (case timeout ro of None \<Rightarrow> Finite 10000 | Some t \<Rightarrow> t)"
proof -
  from assms obtain u where "url ro = Some u"
    by (cases "url ro") (simp_all add: prepare_def url_defaults)
  from prepare_defaults [OF this, of P] assms
  show "maxRedirects ro1 = Some (redirects_left ro)" and "\<exists>u. url ro1 = Some u"
    and "socket_timeout c = Some (case timeout ro of None \<Rightarrow> Finite 10000 | Some t \<Rightarrow> t)"
    and "timeout ro1 = Some (case timeout ro of None \<Rightarrow> Finite 10000 | Some t \<Rightarrow> t)"
    by auto
qed

text \<open>A rejection before the call leaves the counter as the defaults made it.\<close>

lemma prepare_rejected:
  assumes "prepare P (defaults P ro) = Inl (r, ro0)"
  shows "maxRedirects ro0 = Some (redirects_left ro)"
  using assms
  by (auto simp: prepare_def defaults_def redirects_left_def Let_def split: option.splits if_splits)

subsection \<open>The request, one call at a time\<close>

lemma request_from_rejected:
  "prepare P (defaults P ro) = Inl (r, ro0) \<Longrightarrow>
   request_from P recv net i ro
     = Some \<lparr>outcome = Rejected r, attempts = [], uncaught = False, final = ro0\<rparr>"
  by (simp add: request_from.simps)

lemma request_from_finished:
  "prepare P (defaults P ro) = Inr (ro1, c) \<Longrightarrow> attempt P ro1 (net i c) = Finished s \<Longrightarrow>
   request_from P recv net i ro =
     Some \<lparr>outcome = settled s, attempts = [\<lparr>options = ro1, issued = c, was_aborted = aborted s\<rparr>],
           uncaught = False, final = ro1\<rparr>"
  by (simp add: request_from.simps)

lemma request_from_detached:
  "prepare P (defaults P ro) = Inr (ro1, c) \<Longrightarrow> attempt P ro1 (net i c) = Follow ro2 \<Longrightarrow>
   request_from P Detached net i ro =
     Some \<lparr>outcome = Pending, attempts = [\<lparr>options = ro1, issued = c, was_aborted = True\<rparr>],
           uncaught = True, final = ro2\<rparr>"
  by (simp add: request_from.simps)

lemma request_from_module:
  "prepare P (defaults P ro) = Inr (ro1, c) \<Longrightarrow> attempt P ro1 (net i c) = Follow ro2 \<Longrightarrow>
   request_from P Module net (Suc i) ro2 = Some r \<Longrightarrow>
   request_from P Module net i ro =
     Some (r\<lparr>attempts := \<lparr>options = ro1, issued = c, was_aborted = True\<rparr> # attempts r\<rparr>)"
  by (simp add: request_from.simps [of P Module net i])

text \<open>What it takes for a request to have a call after the first.\<close>

lemma call_from_Suc:
  assumes "call_from P recv net i ro (Suc k) = Some x"
  shows "\<exists>ro1 c ro2. prepare P (defaults P ro) = Inr (ro1, c)
     \<and> attempt P ro1 (net i c) = Follow ro2 \<and> recv = Module
     \<and> call_from P Module net (Suc i) ro2 k = Some x"
  using assms by (auto split: sum.splits attempt_result.splits receiver.splits)

lemma call_from_0:
  "call_from P recv net i ro 0 = Some (ro1, c) \<longleftrightarrow> prepare P (defaults P ro) = Inr (ro1, c)"
  by (auto split: sum.splits)

text \<open>
  A call whose events leave the promise of that call as it is (no redirect is followed)
  is the last call of the request: the request ends, and the promise of the call is its
  outcome.
\<close>

lemma finished_call:
  assumes "call_from P recv net i ro k = Some (ro1, c)"
    and "attempt P ro1 (net (i + k) c) = Finished s"
  shows "\<exists>r. request_from P recv net i ro = Some r \<and> outcome r = settled s
     \<and> length (attempts r) = Suc k
     \<and> attempts r ! k = \<lparr>options = ro1, issued = c, was_aborted = aborted s\<rparr>
     \<and> \<not> uncaught r \<and> final r = ro1"
  using assms
proof (induction k arbitrary: i ro)
  case 0
  then have prep: "prepare P (defaults P ro) = Inr (ro1, c)"
    by (simp only: call_from_0)
  from "0.prems"(2) have "attempt P ro1 (net i c) = Finished s"
    by simp
  from request_from_finished [where net = net and i = i, OF prep this, of recv]
  show ?case
    by simp
next
  case (Suc k)
  from call_from_Suc [OF Suc.prems(1)] obtain roA cA ro2
    where prep: "prepare P (defaults P ro) = Inr (roA, cA)"
      and follow: "attempt P roA (net i cA) = Follow ro2" and m: "recv = Module"
      and rest: "call_from P Module net (Suc i) ro2 k = Some (ro1, c)"
    by blast
  from Suc.prems(2) have fin: "attempt P ro1 (net (Suc i + k) c) = Finished s"
    by simp
  from Suc.IH [OF rest [folded m] fin] m obtain r
    where r: "request_from P Module net (Suc i) ro2 = Some r" and "outcome r = settled s"
      and "length (attempts r) = Suc k"
      and "attempts r ! k = \<lparr>options = ro1, issued = c, was_aborted = aborted s\<rparr>"
      and "\<not> uncaught r" and "final r = ro1"
    by blast
  with request_from_module [where net = net and i = i, OF prep follow r] m show ?case
    by simp
qed

text \<open>The calls of a request that ends are its calls number 0, 1 and so on, and no others.\<close>

lemma calls_of_run:
  assumes "request_from P recv net i ro = Some r" and "k < length (attempts r)"
  shows "call_from P recv net i ro k = Some (options (attempts r ! k), issued (attempts r ! k))"
  using assms
proof (induction k arbitrary: i ro r)
  case 0
  show ?case
  proof (cases "prepare P (defaults P ro)")
    case (Inl x)
    with "0.prems" show ?thesis
      by (cases x) (auto simp: request_from_rejected)
  next
    case (Inr x)
    obtain ro1 c where x: "x = (ro1, c)"
      by (cases x)
    show ?thesis
    proof (cases "attempt P ro1 (net i c)")
      case (Finished s)
      from request_from_finished [where net = net and i = i, OF Inr [unfolded x] Finished, of recv]
        "0.prems" Inr x show ?thesis
        by auto
    next
      case (Follow ro2)
      show ?thesis
      proof (cases recv)
        case Detached
        with request_from_detached [where net = net and i = i, OF Inr [unfolded x] Follow]
          "0.prems" Inr x show ?thesis
          by auto
      next
        case Module
        with "0.prems"(1) Inr x Follow obtain r' where "request_from P Module net (Suc i) ro2 = Some r'"
          by (cases "request_from P Module net (Suc i) ro2")
            (simp_all add: request_from.simps [of P Module net i])
        from request_from_module [where net = net and i = i, OF Inr [unfolded x] Follow this]
          "0.prems" Module Inr x show ?thesis
          by auto
      qed
    qed
  qed
next
  case (Suc k)
  show ?case
  proof (cases "prepare P (defaults P ro)")
    case (Inl x)
    with Suc.prems show ?thesis
      by (cases x) (auto simp: request_from_rejected)
  next
    case (Inr x)
    obtain ro1 c where x: "x = (ro1, c)"
      by (cases x)
    show ?thesis
    proof (cases "attempt P ro1 (net i c)")
      case (Finished s)
      from request_from_finished [where net = net and i = i, OF Inr [unfolded x] Finished, of recv]
        Suc.prems show ?thesis
        by auto
    next
      case (Follow ro2)
      show ?thesis
      proof (cases recv)
        case Detached
        with request_from_detached [where net = net and i = i, OF Inr [unfolded x] Follow]
          Suc.prems show ?thesis
          by auto
      next
        case Module
        with Suc.prems(1) Inr x Follow obtain r' where r': "request_from P Module net (Suc i) ro2 = Some r'"
          by (cases "request_from P Module net (Suc i) ro2")
            (simp_all add: request_from.simps [of P Module net i])
        from request_from_module [where net = net and i = i, OF Inr [unfolded x] Follow r']
          Suc.prems Module
        have "k < length (attempts r')" and "attempts r ! Suc k = attempts r' ! k"
          by auto
        with Suc.IH [OF r' [folded Module]] Inr x Follow Module show ?thesis
          by simp
      qed
    qed
  qed
qed

lemma call_in_run:
  assumes "request_from P recv net i ro = Some r" and "call_from P recv net i ro k = Some (ro1, c)"
  shows "k < length (attempts r) \<and> options (attempts r ! k) = ro1 \<and> issued (attempts r ! k) = c"
  using assms
proof (induction k arbitrary: i ro r)
  case 0
  then have prep: "prepare P (defaults P ro) = Inr (ro1, c)"
    by (simp only: call_from_0)
  show ?case
  proof (cases "attempt P ro1 (net i c)")
    case (Finished s)
    from request_from_finished [where net = net and i = i, OF prep Finished, of recv] "0.prems"(1)
    show ?thesis
      by auto
  next
    case (Follow ro2)
    show ?thesis
    proof (cases recv)
      case Detached
      with request_from_detached [where net = net and i = i, OF prep Follow] "0.prems"(1)
      show ?thesis
        by auto
    next
      case Module
      with "0.prems"(1) prep Follow obtain r' where "request_from P Module net (Suc i) ro2 = Some r'"
        by (cases "request_from P Module net (Suc i) ro2")
          (simp_all add: request_from.simps [of P Module net i])
      from request_from_module [where net = net and i = i, OF prep Follow this] "0.prems"(1) Module
      show ?thesis
        by auto
    qed
  qed
next
  case (Suc k)
  from call_from_Suc [OF Suc.prems(2)] obtain roA cA ro2
    where prep: "prepare P (defaults P ro) = Inr (roA, cA)"
      and follow: "attempt P roA (net i cA) = Follow ro2" and m: "recv = Module"
      and rest: "call_from P Module net (Suc i) ro2 k = Some (ro1, c)"
    by blast
  from Suc.prems(1) prep follow m obtain r' where r': "request_from P Module net (Suc i) ro2 = Some r'"
    by (cases "request_from P Module net (Suc i) ro2")
      (simp_all add: request_from.simps [of P Module net i])
  from request_from_module [where net = net and i = i, OF prep follow r'] Suc.prems(1) m
  have "attempts r = \<lparr>options = roA, issued = cA, was_aborted = True\<rparr> # attempts r'"
    by auto
  with Suc.IH [OF r' [folded m] rest [folded m]] show ?case
    by simp
qed

text \<open>The time set on the socket of each call is the configured one, 10000 when left out.\<close>

lemma timeout_at_call:
  assumes "call_from P recv net i ro k = Some (ro1, c)"
  shows "socket_timeout c = Some (case timeout ro of None \<Rightarrow> Finite 10000 | Some t \<Rightarrow> t)"
  using assms
proof (induction k arbitrary: i ro)
  case 0
  then have "prepare P (defaults P ro) = Inr (ro1, c)"
    by (simp only: call_from_0)
  then show ?case
    by (rule prepare_counter(3))
next
  case (Suc k)
  from call_from_Suc [OF Suc.prems] obtain roA cA ro2
    where prep: "prepare P (defaults P ro) = Inr (roA, cA)"
      and follow: "attempt P roA (net i cA) = Follow ro2" and m: "recv = Module"
      and rest: "call_from P Module net (Suc i) ro2 k = Some (ro1, c)"
    by blast
  from follow_counter(2) [OF follow] prepare_counter(4) [OF prep]
  have "timeout ro2 = Some (case timeout ro of None \<Rightarrow> Finite 10000 | Some t \<Rightarrow> t)"
    by simp
  with Suc.IH [OF rest [folded m]] show ?case
    by simp
qed

text \<open>
  A request from a whole counter: it ends, whatever the receiver and the network are,
  and the counter is the starting value less the number of the call.
\<close>

lemma bounded_run:
  assumes "redirects_left ro = Finite (of_nat N)" and "N \<le> 2 ^ 53"
  shows "\<exists>r. request_from P recv net i ro = Some r \<and> length (attempts r) \<le> Suc N
     \<and> (\<forall>k < length (attempts r).
           maxRedirects (options (attempts r ! k)) = Some (Finite (of_nat (N - k))))
     \<and> (\<exists>m \<le> N. maxRedirects (final r) = Some (Finite (of_nat m)))"
  using assms
proof (induction N arbitrary: i ro)
  case 0
  show ?case
  proof (cases "prepare P (defaults P ro)")
    case (Inl x)
    obtain rej ro0 where x: "x = (rej, ro0)"
      by (cases x)
    from request_from_rejected [where net = net and i = i, OF Inl [unfolded x], of recv]
      prepare_rejected [OF Inl [unfolded x]] "0.prems"(1)
    show ?thesis
      by simp
  next
    case (Inr x)
    obtain ro1 c where x: "x = (ro1, c)"
      by (cases x)
    from prepare_counter(1) [OF Inr [unfolded x]] "0.prems"(1)
    have counter: "maxRedirects ro1 = Some (Finite 0)"
      by simp
    show ?thesis
    proof (cases "attempt P ro1 (net i c)")
      case (Follow ro2)
      from follow_counter(1) [OF Follow] counter show ?thesis
        by simp
    next
      case (Finished s)
      from request_from_finished [where net = net and i = i, OF Inr [unfolded x] Finished, of recv]
        counter show ?thesis
        by simp
    qed
  qed
next
  case (Suc N)
  show ?case
  proof (cases "prepare P (defaults P ro)")
    case (Inl x)
    obtain rej ro0 where x: "x = (rej, ro0)"
      by (cases x)
    from request_from_rejected [where net = net and i = i, OF Inl [unfolded x], of recv]
      prepare_rejected [OF Inl [unfolded x]] Suc.prems(1)
    show ?thesis
      by auto
  next
    case (Inr x)
    obtain ro1 c where x: "x = (ro1, c)"
      by (cases x)
    from prepare_counter(1) [OF Inr [unfolded x]] Suc.prems(1)
    have counter: "maxRedirects ro1 = Some (Finite (of_nat (Suc N)))"
      by simp
    show ?thesis
    proof (cases "attempt P ro1 (net i c)")
      case (Finished s)
      from request_from_finished [where net = net and i = i, OF Inr [unfolded x] Finished, of recv]
        counter show ?thesis
        by auto
    next
      case (Follow ro2)
      from follow_counter(1) [OF Follow] counter decrement_whole [OF Suc.prems(2)]
      have less: "maxRedirects ro2 = Some (Finite (of_nat N))"
        by simp
      show ?thesis
      proof (cases recv)
        case Detached
        from request_from_detached [where net = net and i = i, OF Inr [unfolded x] Follow]
          counter less Detached show ?thesis
          by auto
      next
        case Module
        from less have "redirects_left ro2 = Finite (of_nat N)"
          by (simp add: redirects_left_def)
        moreover from Suc.prems(2) have "N \<le> 2 ^ 53"
          by simp
        ultimately obtain r
          where r: "request_from P Module net (Suc i) ro2 = Some r" and "length (attempts r) \<le> Suc N"
            and at: "\<forall>k < length (attempts r).
              maxRedirects (options (attempts r ! k)) = Some (Finite (of_nat (N - k)))"
            and "\<exists>m \<le> N. maxRedirects (final r) = Some (Finite (of_nat m))"
          using Suc.IH [of ro2 "Suc i"] Module by blast
        let ?r = "r\<lparr>attempts := \<lparr>options = ro1, issued = c, was_aborted = True\<rparr> # attempts r\<rparr>"
        have "maxRedirects (options (attempts ?r ! k)) = Some (Finite (of_nat (Suc N - k)))"
          if "k < length (attempts ?r)" for k
          using that at counter by (cases k) auto
        moreover from \<open>\<exists>m \<le> N. maxRedirects (final r) = Some (Finite (of_nat m))\<close>
        have "\<exists>m \<le> Suc N. maxRedirects (final ?r) = Some (Finite (of_nat m))"
          by auto
        moreover note request_from_module [where net = net and i = i, OF Inr [unfolded x] Follow r]
          \<open>length (attempts r) \<le> Suc N\<close>
        ultimately show ?thesis
          using Module by auto
      qed
    qed
  qed
qed

text \<open>The definitions to unfold when a request is evaluated on an example.\<close>

lemmas run_defs = request_def request_from.simps prepare_def defaults_def only_url_def backfill_def
  has_scheme_def example_platform_def example_parse_def parsed_def define_port_def attempt_def
  on_response_def truthy_def collect_def Let_def to_string_def silent_def times_out_def
  redirects_once_to_def where_to_def redirects_always_to_def redirects_then_answers_def
  settled_as_def calls_to_def payloads_def counters_def summary_def

subsection \<open>Following redirects\<close>

text \<open>
  C1, as stated: from any configuration with \<^verbatim>\<open>followRedirect\<close> true and
  \<^verbatim>\<open>maxRedirects\<close> at \<open>N\<close>, \<open>N\<close> redirects are followed and the promise resolves
  with the response that comes after them. Lines 145 and 151 reach the function through
  \<^verbatim>\<open>this.request\<close>: when it was called detached, the first redirect is the end. Here
  \<open>N\<close> is 1 and the server answers with one redirect and then with a response of
  status 200; one call is made, the promise stays pending and the error is uncaught.
\<close>

theorem detached_redirect_never_settles:
  "summary (request example_platform Detached (redirects_then_answers 1 ''http://example.com/b'')
     ((only_url (Some ''http://example.com/a''))\<lparr>maxRedirects := Some (Finite 1)\<rparr>))
   = Some (Pending, 1, True)"
  by (simp add: run_defs)

text \<open>
  A chain of \<open>n\<close> redirects from the call number \<open>i\<close> on, then a response that is
  collected to its end.
\<close>

lemma redirect_chain:
  assumes "url ro = Some u" and "followRedirect ro \<noteq> Some False"
    and "redirects_left ro = Finite (of_nat n)" and "n \<le> 2 ^ 53"
    and "\<forall>j<n. \<forall>c. \<exists>st hs evs. net (i + j) c = Response st hs evs
            \<and> 300 \<le> st \<and> st < 400 \<and> truthy (map_of hs ''location'')"
    and "\<forall>c. net (i + n) c = Response st hs (map Data cs @ End # later)"
    and "200 \<le> st" and "st < 400"
  shows "\<exists>r. request_from P Module net i ro = Some r
     \<and> outcome r
       = Resolved \<lparr>res_status = st, res_headers = JSON_stringify_headers P hs, res_body = concat cs\<rparr>
     \<and> length (attempts r) = Suc n \<and> \<not> uncaught r"
  using assms(1-6)
proof (induction n arbitrary: i ro u)
  case 0
  from prepare_defaults [OF "0.prems"(1), of P] "0.prems"(3) obtain ro1 c
    where prep: "prepare P (defaults P ro) = Inr (ro1, c)" and "maxRedirects ro1 = Some (Finite 0)"
    by auto
  then have "\<not> follows ro1 st hs"
    by (simp add: follows_def)
  with "0.prems"(6) \<open>st < 400\<close>
  have "attempt P ro1 (net i c) = Finished (collect P st hs Pending (map Data cs @ End # later))"
    by (simp add: attempt_def on_response_collects)
  from request_from_finished [where net = net and i = i, OF prep this, of Module] show ?case
    by (simp add: collect_end)
next
  case (Suc n)
  from prepare_defaults [OF Suc.prems(1), of P] Suc.prems(2,3) obtain ro1 c
    where prep: "prepare P (defaults P ro) = Inr (ro1, c)"
      and ro1: "url ro1 = Some (backfill u)" "followRedirect ro1 = Some True"
        "maxRedirects ro1 = Some (Finite (of_nat (Suc n)))"
    by auto
  from Suc.prems(5) obtain st' hs' evs' where resp: "net i c = Response st' hs' evs'"
    and "300 \<le> st'" "st' < 400" "truthy (map_of hs' ''location'')"
    by (metis add.right_neutral zero_less_Suc)
  with ro1 have "follows ro1 st' hs'"
    by (simp add: follows_def)
  from on_response_follows [OF this ro1(1), of P evs'] resp obtain target
    where follow: "attempt P ro1 (net i c)
      = Follow (ro1\<lparr>url := Some target, maxRedirects := map_option decrement (maxRedirects ro1)\<rparr>)"
    by (auto simp: attempt_def)
  let ?ro2 = "ro1\<lparr>url := Some target, maxRedirects := map_option decrement (maxRedirects ro1)\<rparr>"
  have "url ?ro2 = Some target" and "followRedirect ?ro2 \<noteq> Some False"
    and "redirects_left ?ro2 = Finite (of_nat n)" and "n \<le> 2 ^ 53"
    using ro1 Suc.prems(4) decrement_whole [OF Suc.prems(4)] by (simp_all add: redirects_left_def)
  moreover from Suc.prems(5)
  have "\<forall>j<n. \<forall>c. \<exists>st hs evs. net (Suc i + j) c = Response st hs evs
            \<and> 300 \<le> st \<and> st < 400 \<and> truthy (map_of hs ''location'')"
    by (metis Suc_less_eq add_Suc_shift)
  moreover from Suc.prems(6)
  have "\<forall>c. net (Suc i + n) c = Response st hs (map Data cs @ End # later)"
    by simp
  ultimately have "\<exists>r. request_from P Module net (Suc i) ?ro2 = Some r
     \<and> outcome r
       = Resolved \<lparr>res_status = st, res_headers = JSON_stringify_headers P hs, res_body = concat cs\<rparr>
     \<and> length (attempts r) = Suc n \<and> \<not> uncaught r"
    by (rule Suc.IH)
  then obtain r where r: "request_from P Module net (Suc i) ?ro2 = Some r"
    and "outcome r
       = Resolved \<lparr>res_status = st, res_headers = JSON_stringify_headers P hs, res_body = concat cs\<rparr>"
    and "length (attempts r) = Suc n" and "\<not> uncaught r"
    by blast
  with request_from_module [where net = net and i = i, OF prep follow r] show ?case
    by simp
qed

text \<open>
  C1, amended: when the function is called as a method of the module, with a url,
  \<^verbatim>\<open>followRedirect\<close> true (or left out) and \<^verbatim>\<open>maxRedirects\<close> at a whole number \<open>N\<close>
  of at most \<open>2 ^ 53\<close> (10 when left out), a server that answers the first \<open>N\<close> calls
  with a status from 300 to 399 and a location header that is not empty, and the next
  call with a complete response of status 2xx, is called \<open>N + 1\<close> times: the first call
  and one for each redirect, the counter going down by one each time; the promise
  resolves with that last response. If the last response is one more redirect with a
  location, it is not followed either: the counter is at 0, and the promise resolves
  with that response.
\<close>

theorem redirects_followed_exactly:
  assumes "url ro = Some u" and "followRedirect ro \<noteq> Some False"
    and "redirects_left ro = Finite (of_nat N)" and "N \<le> 2 ^ 53"
    and "\<forall>j<N. \<forall>c. \<exists>st hs evs. net j c = Response st hs evs
            \<and> 300 \<le> st \<and> st < 400 \<and> truthy (map_of hs ''location'')"
    and "\<forall>c. net N c = Response st hs (map Data cs @ End # later)"
    and "200 \<le> st" and "st < 400"
  shows "\<exists>r. request P Module net ro = Some r
     \<and> outcome r
       = Resolved \<lparr>res_status = st, res_headers = JSON_stringify_headers P hs, res_body = concat cs\<rparr>
     \<and> length (attempts r) = Suc N \<and> \<not> uncaught r
     \<and> (\<forall>k\<le>N. maxRedirects (options (attempts r ! k)) = Some (Finite (of_nat (N - k))))"
proof -
  from assms(5,6) have "\<forall>j<N. \<forall>c. \<exists>st hs evs. net (0 + j) c = Response st hs evs
            \<and> 300 \<le> st \<and> st < 400 \<and> truthy (map_of hs ''location'')"
    and "\<forall>c. net (0 + N) c = Response st hs (map Data cs @ End # later)"
    by simp_all
  from redirect_chain [OF assms(1-4) this assms(7,8), of P] obtain r
    where r: "request_from P Module net 0 ro = Some r"
      and "outcome r
       = Resolved \<lparr>res_status = st, res_headers = JSON_stringify_headers P hs, res_body = concat cs\<rparr>"
      and len: "length (attempts r) = Suc N" and "\<not> uncaught r"
    by blast
  moreover from bounded_run [OF assms(3,4), of P Module net 0] r len
  have "\<forall>k\<le>N. maxRedirects (options (attempts r ! k)) = Some (Finite (of_nat (N - k)))"
    by auto
  ultimately show ?thesis
    by (simp add: request_def)
qed

text \<open>
  An example with \<open>N = 2\<close>: two redirects, the first to an absolute location and the
  second to a relative one, then a response of status 200 in two chunks.
\<close>

theorem redirects_followed_exactly_witness:
  "settled_as (request example_platform Module
      (\<lambda>i c. if i = 0 then Response 302 [(''location'', ''http://example.com/b'')] []
              else if i = 1 then Response 301 [(''location'', ''/a'')] [Data ''moved'', End]
              else Response 200 [(''server'', ''x'')] [Data ''ab'', Data ''cd'', End])
      ((only_url (Some ''example.com/a''))\<lparr>maxRedirects := Some (Finite 2)\<rparr>))
     = Some (Resolved \<lparr>res_status = 200, res_headers = example_json [(''server'', ''x'')],
               res_body = ''abcd''\<rparr>)
   \<and> map_option (\<lambda>r. map (\<lambda>a. (url (options a), maxRedirects (options a))) (attempts r))
       (request example_platform Module
         (\<lambda>i c. if i = 0 then Response 302 [(''location'', ''http://example.com/b'')] []
              else if i = 1 then Response 301 [(''location'', ''/a'')] [Data ''moved'', End]
              else Response 200 [(''server'', ''x'')] [Data ''ab'', Data ''cd'', End])
         ((only_url (Some ''example.com/a''))\<lparr>maxRedirects := Some (Finite 2)\<rparr>))
     = Some [(Some ''http://example.com/a'', Some (Finite 2)), (Some ''http://example.com/b'', Some (Finite 1)),
        (Some ''http://example.com/a'', Some (Finite 0))]"
proof -
  let ?net = "\<lambda>(i::nat) (c::call).
      if i = 0 then Response 302 [(''location'', ''http://example.com/b'')] []
      else if i = 1 then Response 301 [(''location'', ''/a'')] [Data ''moved'', End]
      else Response 200 [(''server'', ''x'')] [Data ''ab'', Data ''cd'', End]"
  let ?ro = "(only_url (Some ''example.com/a''))\<lparr>maxRedirects := Some (Finite 2)\<rparr>"
  have a1: "url ?ro = Some ''example.com/a''" and a2: "followRedirect ?ro \<noteq> Some False"
    and a3: "redirects_left ?ro = Finite (of_nat 2)" and a4: "(2::nat) \<le> 2 ^ 53"
    by (simp_all add: only_url_def redirects_left_def)
  have a5: "\<forall>j<2. \<forall>c. \<exists>st hs evs. ?net j c = Response st hs evs
            \<and> 300 \<le> st \<and> st < 400 \<and> truthy (map_of hs ''location'')"
    by (simp add: truthy_def less_Suc_eq numeral_2_eq_2)
  have a6: "\<forall>c. ?net 2 c = Response 200 [(''server'', ''x'')] (map Data [''ab'', ''cd''] @ End # [])"
    by simp
  from redirects_followed_exactly [where net = ?net, OF a1 a2 a3 a4 a5 a6, of example_platform]
  have "settled_as (request example_platform Module ?net ?ro)
     = Some (Resolved \<lparr>res_status = 200, res_headers = example_json [(''server'', ''x'')],
               res_body = ''abcd''\<rparr>)"
    by (auto simp: example_platform_def settled_as_def)
  moreover have "map_option (\<lambda>r. map (\<lambda>a. (url (options a), maxRedirects (options a))) (attempts r))
       (request example_platform Module ?net ?ro)
     = Some [(Some ''http://example.com/a'', Some (Finite 2)), (Some ''http://example.com/b'', Some (Finite 1)),
        (Some ''http://example.com/a'', Some (Finite 0))]"
    by (simp add: run_defs decrement_small)
  ultimately show ?thesis
    by simp
qed

subsection \<open>Missing url\<close>

text \<open>
  C2, as stated: with the url absent or null the promise rejects with the structured
  object \<^verbatim>\<open>{code: "ERR", msg: "URL MISSING"}\<close>. The code rejects with a string, the
  JSON text of that object (line 70), so the rejection is not the object.
\<close>

theorem url_missing_not_object:
  "settled_as (request example_platform Module silent (only_url None))
     = Some (Rejected (RejText url_missing_text))
   \<and> settled_as (request example_platform Module silent (only_url None))
     \<noteq> Some (Rejected (RejObj \<lparr>code = Some ''ERR'', msg = Some ''URL MISSING''\<rparr>))"
  by (simp add: run_defs)

text \<open>
  C2, amended: with the url absent or null the promise rejects with the JSON text
  \<^verbatim>\<open>{"code":"ERR","msg":"URL MISSING"}\<close>, whatever the other options, the receiver
  and the network are, and no call is issued.
\<close>

theorem url_missing_rejects_text:
  "url ro = None \<Longrightarrow>
     request P recv net ro
       = Some \<lparr>outcome = Rejected (RejText url_missing_text), attempts = [], uncaught = False,
               final = defaults P ro\<rparr>"
  by (simp add: request_def request_from.simps prepare_def url_defaults)

theorem url_missing_rejects_text_witness:
  "url (only_url None) = None \<and>
   request example_platform Detached (\<lambda>i c. Response 200 [] [End]) (only_url None)
     = Some \<lparr>outcome = Rejected (RejText url_missing_text), attempts = [], uncaught = False,
             final = defaults example_platform (only_url None)\<rparr>"
proof -
  have h: "url (only_url None) = None"
    by (simp add: only_url_def)
  from url_missing_rejects_text [OF h] h show ?thesis
    by simp
qed

subsection \<open>Client and server errors\<close>

text \<open>
  C3: whenever a call of the request gets a response with a status from 400 to 499, the
  promise rejects with the object \<^verbatim>\<open>{code: "ERR", msg: "CLIENT ERROR: <status>"}\<close>,
  and with a status of 500 or more it rejects with
  \<^verbatim>\<open>{code: "ERR", msg: "SERVER ERROR: <status>"}\<close>, whatever events follow the
  response. The call may be the first one or one that a redirect led to; it is the last
  call of the request, which ends there.
\<close>

theorem error_status_rejects:
  assumes "call_at P recv net ro k = Some (ro1, c)"
    and "net k c = Response st hs evs"
  shows "(400 \<le> st \<and> st < 500 \<longrightarrow>
            (\<exists>r. request P recv net ro = Some r \<and> length (attempts r) = Suc k
               \<and> issued (attempts r ! k) = c
               \<and> outcome r
                 = Rejected (RejObj \<lparr>code = Some ''ERR'', msg = Some (''CLIENT ERROR: '' @ decimal st)\<rparr>)))
       \<and> (500 \<le> st \<longrightarrow>
            (\<exists>r. request P recv net ro = Some r \<and> length (attempts r) = Suc k
               \<and> issued (attempts r ! k) = c
               \<and> outcome r
                 = Rejected (RejObj \<lparr>code = Some ''ERR'', msg = Some (''SERVER ERROR: '' @ decimal st)\<rparr>)))"
proof (intro conjI impI)
  from assms(2) have resp: "attempt P ro1 (net (0 + k) c) = on_response P ro1 st hs evs"
    by (simp add: attempt_def)
  {
    assume "400 \<le> st \<and> st < 500"
    with on_response_4xx [of st P ro1 hs evs] resp obtain s
      where "attempt P ro1 (net (0 + k) c) = Finished s" and "settled s
        = Rejected (RejObj \<lparr>code = Some ''ERR'', msg = Some (''CLIENT ERROR: '' @ decimal st)\<rparr>)"
      by auto
    with finished_call [OF assms(1) [unfolded call_at_def], of s]
    show "\<exists>r. request P recv net ro = Some r \<and> length (attempts r) = Suc k
               \<and> issued (attempts r ! k) = c
               \<and> outcome r
                 = Rejected (RejObj \<lparr>code = Some ''ERR'', msg = Some (''CLIENT ERROR: '' @ decimal st)\<rparr>)"
      by (auto simp: request_def)
  }
  {
    assume "500 \<le> st"
    with on_response_5xx [of st P ro1 hs evs] resp obtain s
      where "attempt P ro1 (net (0 + k) c) = Finished s" and "settled s
        = Rejected (RejObj \<lparr>code = Some ''ERR'', msg = Some (''SERVER ERROR: '' @ decimal st)\<rparr>)"
      by auto
    with finished_call [OF assms(1) [unfolded call_at_def], of s]
    show "\<exists>r. request P recv net ro = Some r \<and> length (attempts r) = Suc k
               \<and> issued (attempts r ! k) = c
               \<and> outcome r
                 = Rejected (RejObj \<lparr>code = Some ''ERR'', msg = Some (''SERVER ERROR: '' @ decimal st)\<rparr>)"
      by (auto simp: request_def)
  }
qed

theorem error_status_rejects_witness:
  "settled_as (request example_platform Module (\<lambda>i c. Response 404 [] [End]) (only_url (Some ''example.com/a'')))
     = Some (Rejected (RejObj \<lparr>code = Some ''ERR'', msg = Some ''CLIENT ERROR: 404''\<rparr>))
   \<and> settled_as (request example_platform Detached (\<lambda>i c. Response 503 [] []) (only_url (Some ''example.com/a'')))
     = Some (Rejected (RejObj \<lparr>code = Some ''ERR'', msg = Some ''SERVER ERROR: 503''\<rparr>))"
proof -
  let ?ro = "only_url (Some ''example.com/a'')"
  let ?n1 = "\<lambda>(i::nat) (c::call). Response 404 [] [End]"
  let ?n2 = "\<lambda>(i::nat) (c::call). Response 503 [] []"
  obtain ro1 c1 where c1: "call_at example_platform Module ?n1 ?ro 0 = Some (ro1, c1)"
    by (simp add: call_at_def run_defs)
  obtain ro2 c2 where c2: "call_at example_platform Detached ?n2 ?ro 0 = Some (ro2, c2)"
    by (simp add: call_at_def run_defs)
  from error_status_rejects [OF c1, of 404 "[]" "[End]"]
    error_status_rejects [OF c2, of 503 "[]" "[]"]
  show ?thesis
    by (auto simp: decimal.simps digit_def settled_as_def)
qed

subsection \<open>A redirect that is not followed\<close>

text \<open>
  C4: when a call gets a response with a status from 300 to 399 and the conditions for
  following it are not all met (no location header, or \<^verbatim>\<open>followRedirect\<close> false, or
  \<^verbatim>\<open>maxRedirects\<close> not above 0), no further call is made: the body is collected, and
  at the end of the response the promise resolves with the status, the headers and the
  joined chunks of that response.
\<close>

theorem unfollowed_redirect_is_collected:
  assumes "call_at P recv net ro k = Some (ro1, c)"
    and "net k c = Response st hs (map Data cs @ End # later)"
    and "300 \<le> st" and "st < 400"
    and "\<not> truthy (map_of hs ''location'')
       \<or> followRedirect ro1 \<noteq> Some True
       \<or> (\<forall>n. maxRedirects ro1 = Some n \<longrightarrow> \<not> positive n)"
  shows "\<exists>r. request P recv net ro = Some r
     \<and> outcome r
       = Resolved \<lparr>res_status = st, res_headers = JSON_stringify_headers P hs, res_body = concat cs\<rparr>
     \<and> length (attempts r) = Suc k \<and> issued (attempts r ! k) = c"
proof -
  let ?evs = "map Data cs @ End # later"
  from assms(5) have "\<not> follows ro1 st hs"
    by (auto simp: follows_def split: option.splits)
  with assms(2) \<open>st < 400\<close>
  have "attempt P ro1 (net (0 + k) c) = Finished (collect P st hs Pending ?evs)"
    by (simp add: attempt_def on_response_collects)
  from finished_call [OF assms(1) [unfolded call_at_def] this] show ?thesis
    by (auto simp: request_def collect_end)
qed

text \<open>An example: a redirect at the counter 0.\<close>

theorem unfollowed_redirect_is_collected_witness:
  "summary (request example_platform Module
     (\<lambda>i c. Response 302 [(''location'', ''http://example.com/b'')] [Data ''ab'', Data ''cd'', End])
     ((only_url (Some ''example.com/a''))\<lparr>maxRedirects := Some (Finite 0)\<rparr>))
   = Some (Resolved \<lparr>res_status = 302,
             res_headers = example_json [(''location'', ''http://example.com/b'')], res_body = ''abcd''\<rparr>,
           1, False)"
proof -
  let ?net = "\<lambda>(i::nat) (c::call).
    Response 302 [(''location'', ''http://example.com/b'')] [Data ''ab'', Data ''cd'', End]"
  let ?ro = "(only_url (Some ''example.com/a''))\<lparr>maxRedirects := Some (Finite 0)\<rparr>"
  obtain ro1 c where call: "call_at example_platform Module ?net ?ro 0 = Some (ro1, c)"
    and counter: "maxRedirects ro1 = Some (Finite 0)"
    by (simp add: call_at_def run_defs)
  have resp: "?net 0 c
      = Response 302 [(''location'', ''http://example.com/b'')] (map Data [''ab'', ''cd''] @ End # [])"
    by simp
  from counter have cause: "\<not> truthy (map_of [(''location'', ''http://example.com/b'')] ''location'')
       \<or> followRedirect ro1 \<noteq> Some True
       \<or> (\<forall>n. maxRedirects ro1 = Some n \<longrightarrow> \<not> positive n)"
    by simp
  from unfollowed_redirect_is_collected [OF call resp _ _ cause] obtain r
    where "request example_platform Module ?net ?ro = Some r"
      and "outcome r = Resolved \<lparr>res_status = 302,
          res_headers = example_json [(''location'', ''http://example.com/b'')], res_body = ''abcd''\<rparr>"
      and "length (attempts r) = 1"
    by (auto simp: example_platform_def)
  moreover have "map_option uncaught (request example_platform Module ?net ?ro) = Some False"
    by (simp add: run_defs)
  ultimately show ?thesis
    by (simp add: summary_def)
qed

subsection \<open>The payload and its headers\<close>

lemma map_of_set_headers:
  "map_of (set_headers ct data h) ''Content-Type'' = Some (Str (content_type_of ct))"
  "map_of (set_headers ct data h) ''Content-Length'' = Some (Num (length data))"
  by (simp_all add: set_headers_def update_conv')

lemma prepare_payload:
  assumes "url ro = Some u" and "body ro = Some b" and "req_method ro \<noteq> Some ''GET''"
    and "headers ro = Some h"
  shows "\<exists>ro1 c. prepare P ro = Inr (ro1, c) \<and> postData c = Some (JSON_stringify P b)
     \<and> o_headers c = Some (set_headers (contentType ro) (JSON_stringify P b) h)"
  using assms by (simp add: prepare_def Let_def)

text \<open>
  C5: with a body and a method that is not GET (after \<^verbatim>\<open>toUpperCase\<close>), the payload of
  the call is \<^verbatim>\<open>JSON.stringify(body)\<close> whatever the content type is; the content type
  (after \<^verbatim>\<open>toUpperCase\<close>, FORM when left out) chooses the \<^verbatim>\<open>Content-Type\<close> header
  only: \<^verbatim>\<open>application/json\<close> for JSON, \<^verbatim>\<open>application/x-www-form-urlencoded\<close> for
  FORM and for anything else. The call is the first call of the request, and the first
  entry of its calls when the request ends.
\<close>

theorem payload_is_json_whatever_content_type:
  assumes "url ro = Some u" and "body ro = Some b"
    and "req_method ro = Some m" and "toUpperCase P m \<noteq> ''GET''"
  shows "\<exists>ro1 c h. call_at P recv net ro 0 = Some (ro1, c)
     \<and> postData c = Some (JSON_stringify P b)
     \<and> o_headers c = Some h
     \<and> map_of h ''Content-Type'' = Some (Str
          (if (case contentType ro of None \<Rightarrow> ''FORM'' | Some ct \<Rightarrow> toUpperCase P ct) = ''JSON''
           then ''application/json'' else ''application/x-www-form-urlencoded''))
     \<and> (\<forall>r. request P recv net ro = Some r \<longrightarrow>
          (\<exists>ab rest. attempts r = \<lparr>options = ro1, issued = c, was_aborted = ab\<rparr> # rest))"
proof -
  let ?d = "defaults P ro"
  from assms have "url ?d = Some u" and "body ?d = Some b" and "req_method ?d \<noteq> Some ''GET''"
    and "headers ?d = Some (case headers ro of None \<Rightarrow> [] | Some h \<Rightarrow> h)"
    and ct: "contentType ?d = Some (case contentType ro of None \<Rightarrow> ''FORM'' | Some ct \<Rightarrow> toUpperCase P ct)"
    by (simp_all add: defaults_def)
  from prepare_payload [OF this(1-4), of P] obtain ro1 c
    where prep: "prepare P ?d = Inr (ro1, c)" and "postData c = Some (JSON_stringify P b)"
      and "o_headers c = Some (set_headers (contentType ?d) (JSON_stringify P b)
             (case headers ro of None \<Rightarrow> [] | Some h \<Rightarrow> h))"
    by blast
  moreover from prep have call: "call_at P recv net ro 0 = Some (ro1, c)"
    by (simp add: call_at_def call_from_0)
  moreover have "\<exists>ab rest. attempts r = \<lparr>options = ro1, issued = c, was_aborted = ab\<rparr> # rest"
    if "request P recv net ro = Some r" for r
  proof -
    from call_in_run [OF that [unfolded request_def] call [unfolded call_at_def]]
    obtain a rest where "attempts r = a # rest" and "options a = ro1" and "issued a = c"
      by (cases "attempts r") auto
    then show ?thesis
      by (cases a) auto
  qed
  ultimately show ?thesis
    by (simp add: map_of_set_headers ct content_type_of_def)
qed

text \<open>An example: a body posted with the content type \<^verbatim>\<open>form\<close> goes out as JSON text.\<close>

theorem payload_is_json_whatever_content_type_witness:
  "payloads (request example_platform Module silent
        ((only_url (Some ''http://example.com/a''))
           \<lparr>req_method := Some ''post'', body := Some [(''msg'', ''hi'')], contentType := Some ''form''\<rparr>))
   = Some [(Some (''{'' @ quoted ''msg'' @ '':'' @ quoted ''hi'' @ ''}''), Some 12,
       Some [(''Content-Type'', Str ''application/x-www-form-urlencoded''), (''Content-Length'', Num 12)])]"
proof -
  let ?ro = "(only_url (Some ''http://example.com/a''))
           \<lparr>req_method := Some ''post'', body := Some [(''msg'', ''hi'')], contentType := Some ''form''\<rparr>"
  let ?run = "request example_platform Module silent ?ro"
  have h: "url ?ro = Some ''http://example.com/a''" "body ?ro = Some [(''msg'', ''hi'')]"
    "req_method ?ro = Some ''post''" "toUpperCase example_platform ''post'' \<noteq> ''GET''"
    by (simp_all add: only_url_def example_platform_def example_upper_def)
  obtain r where r: "?run = Some r" and one: "length (attempts r) = 1"
    by (simp add: run_defs example_upper_def example_json_def quoted_def
        set_headers_def content_type_of_def)
  from payload_is_json_whatever_content_type [OF h, of Module silent] r obtain a rest
    where calls: "attempts r = a # rest"
      and "postData (issued a) = Some (JSON_stringify example_platform [(''msg'', ''hi'')])"
    by force
  then have "postData (issued a) = Some (''{'' @ quoted ''msg'' @ '':'' @ quoted ''hi'' @ ''}'')"
    by (simp add: example_platform_def example_json_def)
  moreover have "map_option (\<lambda>r. map (\<lambda>a. o_headers (issued a)) (attempts r)) ?run
      = Some [Some [(''Content-Type'', Str ''application/x-www-form-urlencoded''), (''Content-Length'', Num 12)]]"
    by (simp add: run_defs example_upper_def example_json_def quoted_def
        set_headers_def content_type_of_def)
  ultimately show ?thesis
    using calls one r by (simp add: payloads_def sent_def utf8_length_def quoted_def)
qed

subsection \<open>Content-Length\<close>

text \<open>
  C6 asks for a \<^verbatim>\<open>Content-Length\<close> equal to the length in bytes of the JSON text.
  Lines 115, 119 and 123 store \<^verbatim>\<open>postData.length\<close>, the number of UTF-16 code units.
  Take the body with the one key \<^verbatim>\<open>msg\<close> whose value is the letter e with an acute
  accent (U+00E9), posted as JSON: the header says 11 and the payload, written as UTF-8,
  has 12 bytes. The \<^verbatim>\<open>Content-Type\<close> is \<^verbatim>\<open>application/json\<close>, as the claim says.
\<close>

theorem content_length_counts_code_units:
  "payloads (request example_platform Module silent
        ((only_url (Some ''http://example.com/a''))
           \<lparr>req_method := Some ''POST'', body := Some [(''msg'', [CHR 0xE9])],
            contentType := Some ''JSON''\<rparr>))
   = Some [(Some (''{'' @ quoted ''msg'' @ '':'' @ quoted [CHR 0xE9] @ ''}''), Some 12,
       Some [(''Content-Type'', Str ''application/json''), (''Content-Length'', Num 11)])]"
  by (simp add: run_defs example_upper_def example_json_def quoted_def set_headers_def
      content_type_of_def utf8_length_def sent_def)

subsection \<open>Timeout\<close>

text \<open>
  C7, as stated: a socket that stays idle longer than the timeout makes the promise reject
  with the structured error \<^verbatim>\<open>{code: "ERR", msg: "timeout"}\<close>. The code rejects with
  a string, the JSON text of that object (line 208): here the socket of the only call
  times out before any response, and the rejection is not the object.
\<close>

theorem timeout_not_object:
  "settled_as (request example_platform Module times_out (only_url (Some ''http://example.com/a'')))
     = Some (Rejected (RejText timeout_text))
   \<and> settled_as (request example_platform Module times_out (only_url (Some ''http://example.com/a'')))
     \<noteq> Some (Rejected (RejObj \<lparr>code = Some ''ERR'', msg = Some ''timeout''\<rparr>))"
  by (simp add: run_defs)

text \<open>
  C7, amended: the socket of each call is given the configured timeout. When the
  timeout event of a call comes while the promise is not settled, that is before any
  response, or while the body of a response that is neither followed nor an error
  (status below 400) is still arriving, the request is aborted and the promise rejects
  with the JSON text \<^verbatim>\<open>{"code":"ERR","msg":"timeout"}\<close>; the request ends with that
  call.
\<close>

theorem timeout_aborts_and_rejects_text:
  assumes "call_at P recv net ro k = Some (ro1, c)"
    and "net k c = TimedOut
       \<or> (\<exists>st hs cs later.
            net k c = Response st hs (map Data cs @ SocketTimeout # later)
            \<and> st < 400 \<and> \<not> follows ro1 st hs)"
  shows "\<exists>r. request P recv net ro = Some r
     \<and> outcome r = Rejected (RejText timeout_text)
     \<and> length (attempts r) = Suc k \<and> issued (attempts r ! k) = c
     \<and> was_aborted (attempts r ! k)
     \<and> socket_timeout c = Some (case timeout ro of None \<Rightarrow> Finite 10000 | Some t \<Rightarrow> t)"
proof -
  from assms(2) have "\<exists>s. attempt P ro1 (net (0 + k) c) = Finished s
      \<and> settled s = Rejected (RejText timeout_text) \<and> aborted s"
  proof
    assume "net k c = TimedOut"
    then show ?thesis
      by (simp add: attempt_def)
  next
    assume "\<exists>st hs cs later.
            net k c = Response st hs (map Data cs @ SocketTimeout # later)
            \<and> st < 400 \<and> \<not> follows ro1 st hs"
    then obtain st hs cs later
      where "net (0 + k) c = Response st hs (map Data cs @ SocketTimeout # later)"
        and "st < 400" and "\<not> follows ro1 st hs"
      by auto
    then have "attempt P ro1 (net (0 + k) c)
        = Finished (collect P st hs Pending (map Data cs @ SocketTimeout # later))"
      by (simp add: attempt_def on_response_collects)
    with collect_timeout [of P st hs cs later] show ?thesis
      by simp
  qed
  then obtain s where "attempt P ro1 (net (0 + k) c) = Finished s"
    and "settled s = Rejected (RejText timeout_text)" and "aborted s"
    by blast
  with finished_call [OF assms(1) [unfolded call_at_def], of s]
    timeout_at_call [OF assms(1) [unfolded call_at_def]]
  show ?thesis
    by (auto simp: request_def)
qed

text \<open>
  Two examples: a socket that times out before any response, with a timeout of 1500,
  and a response of status 200 whose body stops after one chunk.
\<close>

theorem timeout_aborts_and_rejects_text_witness:
  "request example_platform Module times_out
     ((only_url (Some ''http://example.com/a''))\<lparr>timeout := Some (Finite 1500)\<rparr>)
   = Some \<lparr>outcome = Rejected (RejText timeout_text),
       attempts = [\<lparr>options = (defaults example_platform (only_url (Some ''http://example.com/a'')))
                       \<lparr>timeout := Some (Finite 1500)\<rparr>,
                    issued = \<lparr>lib = Http, o_hostname = Some ''example.com'', o_path = Some ''/a'',
                      o_method = Some ''GET'', o_port = PortNum 80, o_headers = Some [],
                      postData = None, socket_timeout = Some (Finite 1500)\<rparr>,
                    was_aborted = True\<rparr>],
       uncaught = False,
       final = (defaults example_platform (only_url (Some ''http://example.com/a'')))
                       \<lparr>timeout := Some (Finite 1500)\<rparr>\<rparr>
   \<and> settled_as (request example_platform Module (\<lambda>i c. Response 200 [] [Data ''ab'', SocketTimeout])
        (only_url (Some ''http://example.com/a''))) = Some (Rejected (RejText timeout_text))"
proof -
  let ?n2 = "\<lambda>(i::nat) (c::call). Response 200 [] [Data ''ab'', SocketTimeout]"
  let ?ro1 = "(only_url (Some ''http://example.com/a''))\<lparr>timeout := Some (Finite 1500)\<rparr>"
  let ?ro2 = "only_url (Some ''http://example.com/a'')"
  let ?o = "(defaults example_platform (only_url (Some ''http://example.com/a'')))
                       \<lparr>timeout := Some (Finite 1500)\<rparr>"
  let ?c = "\<lparr>lib = Http, o_hostname = Some ''example.com'', o_path = Some ''/a'',
            o_method = Some ''GET'', o_port = PortNum 80, o_headers = Some [],
            postData = None, socket_timeout = Some (Finite 1500)\<rparr>"
  have call1: "call_at example_platform Module times_out ?ro1 0 = Some (?o, ?c)"
    by (simp add: call_at_def run_defs)
  have h1: "times_out 0 ?c = TimedOut
       \<or> (\<exists>st hs cs later.
            times_out 0 ?c = Response st hs (map Data cs @ SocketTimeout # later)
            \<and> st < 400 \<and> \<not> follows ?o st hs)"
    by (simp add: times_out_def)
  obtain ro2 c2 where call2: "call_at example_platform Module ?n2 ?ro2 0 = Some (ro2, c2)"
    by (simp add: call_at_def run_defs)
  have "?n2 0 c2 = Response 200 [] (map Data [''ab''] @ SocketTimeout # [])
      \<and> (200::nat) < 400 \<and> \<not> follows ro2 200 []"
    by (simp add: follows_def)
  then have h2: "?n2 0 c2 = TimedOut
       \<or> (\<exists>st hs cs later.
            ?n2 0 c2 = Response st hs (map Data cs @ SocketTimeout # later)
            \<and> st < 400 \<and> \<not> follows ro2 st hs)"
    by blast
  from timeout_aborts_and_rejects_text [OF call1 h1] obtain r
    where r: "request example_platform Module times_out ?ro1 = Some r"
      and "outcome r = Rejected (RejText timeout_text)" and "length (attempts r) = 1"
      and "issued (attempts r ! 0) = ?c" and "was_aborted (attempts r ! 0)"
    by auto
  moreover from call_in_run [OF r [unfolded request_def] call1 [unfolded call_at_def]]
  have "options (attempts r ! 0) = ?o"
    by simp
  moreover have "map_option uncaught (request example_platform Module times_out ?ro1) = Some False"
    and "map_option final (request example_platform Module times_out ?ro1) = Some ?o"
    by (simp_all add: run_defs)
  ultimately have "r = \<lparr>outcome = Rejected (RejText timeout_text),
       attempts = [\<lparr>options = ?o, issued = ?c, was_aborted = True\<rparr>], uncaught = False, final = ?o\<rparr>"
    by (cases r; cases "attempts r"; cases "hd (attempts r)") auto
  moreover from timeout_aborts_and_rejects_text [OF call2 h2]
  have "settled_as (request example_platform Module ?n2 ?ro2) = Some (Rejected (RejText timeout_text))"
    by (auto simp: settled_as_def)
  ultimately show ?thesis
    using r by simp
qed

subsection \<open>Scheme and port\<close>

lemma backfill_http:
  "\<not> has_scheme u \<Longrightarrow> backfill u = ''http://'' @ u"
  "\<not> has_scheme u \<Longrightarrow> \<not> prefix ''https'' (backfill u)"
  "has_scheme u \<Longrightarrow> backfill u = u"
  "prefix ''https://'' u \<Longrightarrow> prefix ''https'' (backfill u)"
  "prefix ''http://'' u \<Longrightarrow> \<not> prefix ''https'' (backfill u)"
  by (auto simp: backfill_def has_scheme_def prefix_def)

text \<open>
  C8: a url that begins with neither \<^verbatim>\<open>http://\<close> nor \<^verbatim>\<open>https://\<close> gets
  \<^verbatim>\<open>http://\<close> put before it, and the call goes to the http module; a url that begins
  with \<^verbatim>\<open>https://\<close> goes to the https module. For the port, the url as it then is
  is parsed: with no port and the protocol \<^verbatim>\<open>http:\<close> the port is 80, with no port and
  the protocol \<^verbatim>\<open>https:\<close> it is 443, and a port in the url is taken as it is. The
  call is the first call of the request, and the first entry of its calls when the
  request ends.
\<close>

theorem scheme_and_port:
  assumes "url ro = Some u"
  shows "\<exists>ro1 c v. call_at P recv net ro 0 = Some (ro1, c) \<and> url ro1 = Some v
     \<and> (\<not> has_scheme u \<longrightarrow> v = ''http://'' @ u \<and> lib c = Http)
     \<and> (prefix ''http://'' u \<longrightarrow> v = u \<and> lib c = Http)
     \<and> (prefix ''https://'' u \<longrightarrow> v = u \<and> lib c = Https)
     \<and> (port (url_parse P v) = None \<and> protocol (url_parse P v) = Some ''http:''
          \<longrightarrow> o_port c = PortNum 80)
     \<and> (port (url_parse P v) = None \<and> protocol (url_parse P v) = Some ''https:''
          \<longrightarrow> o_port c = PortNum 443)
     \<and> (\<forall>p. port (url_parse P v) = Some p \<longrightarrow> o_port c = PortStr p)
     \<and> (\<forall>r. request P recv net ro = Some r \<longrightarrow>
          (\<exists>ab rest. attempts r = \<lparr>options = ro1, issued = c, was_aborted = ab\<rparr> # rest))"
proof -
  from prepare_defaults [OF assms, of P] obtain ro1 c
    where prep: "prepare P (defaults P ro) = Inr (ro1, c)" and v: "url ro1 = Some (backfill u)"
      and l: "lib c = (if prefix ''https'' (backfill u) then Https else Http)"
      and p: "o_port c = define_port (url_parse P (backfill u))"
    by blast
  from prep have call: "call_at P recv net ro 0 = Some (ro1, c)"
    by (simp add: call_at_def call_from_0)
  have calls: "\<exists>ab rest. attempts r = \<lparr>options = ro1, issued = c, was_aborted = ab\<rparr> # rest"
    if "request P recv net ro = Some r" for r
  proof -
    from call_in_run [OF that [unfolded request_def] call [unfolded call_at_def]]
    obtain a rest where "attempts r = a # rest" and "options a = ro1" and "issued a = c"
      by (cases "attempts r") auto
    then show ?thesis
      by (cases a) auto
  qed
  have "\<not> has_scheme u \<longrightarrow> backfill u = ''http://'' @ u \<and> lib c = Http"
    and "prefix ''http://'' u \<longrightarrow> backfill u = u \<and> lib c = Http"
    and "prefix ''https://'' u \<longrightarrow> backfill u = u \<and> lib c = Https"
    using l backfill_http [of u] by (auto simp: has_scheme_def)
  moreover have "port (url_parse P (backfill u)) = None \<and> protocol (url_parse P (backfill u)) = Some ''http:''
      \<longrightarrow> o_port c = PortNum 80"
    and "port (url_parse P (backfill u)) = None \<and> protocol (url_parse P (backfill u)) = Some ''https:''
      \<longrightarrow> o_port c = PortNum 443"
    and "\<forall>p. port (url_parse P (backfill u)) = Some p \<longrightarrow> o_port c = PortStr p"
    using p by (simp_all add: define_port_def)
  ultimately show ?thesis
    using call calls v by simp
qed

text \<open>
  Examples: a url without a scheme, an https url, and an http url with a port.
\<close>

theorem scheme_and_port_witness:
  "calls_to (request example_platform Module silent (only_url (Some ''example.com/a'')))
     = Some [(Some ''http://example.com/a'', Http, PortNum 80)]
   \<and> calls_to (request example_platform Module silent (only_url (Some ''https://example.com/a'')))
     = Some [(Some ''https://example.com/a'', Https, PortNum 443)]
   \<and> calls_to (request example_platform Module silent (only_url (Some ''http://example.com:8080/a'')))
     = Some [(Some ''http://example.com:8080/a'', Http, PortStr ''8080'')]"
proof -
  let ?r1 = "request example_platform Module silent (only_url (Some ''example.com/a''))"
  let ?r2 = "request example_platform Module silent (only_url (Some ''https://example.com/a''))"
  let ?r3 = "request example_platform Module silent (only_url (Some ''http://example.com:8080/a''))"
  obtain r1 r2 r3 where r: "?r1 = Some r1" "?r2 = Some r2" "?r3 = Some r3"
    and one: "length (attempts r1) = 1" "length (attempts r2) = 1" "length (attempts r3) = 1"
    by (simp add: run_defs)
  have u1: "url (only_url (Some ''example.com/a'')) = Some ''example.com/a''"
    and u2: "url (only_url (Some ''https://example.com/a'')) = Some ''https://example.com/a''"
    and u3: "url (only_url (Some ''http://example.com:8080/a'')) = Some ''http://example.com:8080/a''"
    by (simp_all add: only_url_def)
  have p1: "url_parse example_platform ''http://example.com/a''
      = \<lparr>protocol = Some ''http:'', hostname = Some ''example.com'', port = None, path = Some ''/a''\<rparr>"
    and p2: "url_parse example_platform ''https://example.com/a''
      = \<lparr>protocol = Some ''https:'', hostname = Some ''example.com'', port = None, path = Some ''/a''\<rparr>"
    and p3: "url_parse example_platform ''http://example.com:8080/a''
      = \<lparr>protocol = Some ''http:'', hostname = Some ''example.com'', port = Some ''8080'', path = Some ''/a''\<rparr>"
    by (simp_all add: example_platform_def example_parse_def parsed_def)
  from scheme_and_port [OF u1, of example_platform Module silent] r(1) one(1) p1
  have "map where_to (attempts r1) = [(Some ''http://example.com/a'', Http, PortNum 80)]"
    by (auto simp: has_scheme_def where_to_def)
  moreover from scheme_and_port [OF u2, of example_platform Module silent] r(2) one(2) p2
  have "map where_to (attempts r2) = [(Some ''https://example.com/a'', Https, PortNum 443)]"
    by (auto simp: where_to_def)
  moreover from scheme_and_port [OF u3, of example_platform Module silent] r(3) one(3) p3
  have "map where_to (attempts r3) = [(Some ''http://example.com:8080/a'', Http, PortStr ''8080'')]"
    by (auto simp: where_to_def)
  ultimately show ?thesis
    using r by (simp add: calls_to_def)
qed

subsection \<open>The counter of redirects\<close>

text \<open>
  C9, as stated: from any starting value of 0 or more the counter never becomes
  negative. Line 58 keeps any number and line 140 follows from any value above 0: a
  request that starts at one half and is redirected makes its second call at minus one
  half.
\<close>

theorem counter_goes_negative:
  "counters (request example_platform Module (redirects_always_to ''http://example.com/a'')
     ((only_url (Some ''http://example.com/a''))\<lparr>maxRedirects := Some (Finite (1 / 2))\<rparr>))
   = Some [Some (Finite (1 / 2)), Some (Finite (- (1 / 2)))]"
  by (simp add: run_defs decrement_half)

text \<open>
  C9, amended: when \<^verbatim>\<open>maxRedirects\<close> starts at a whole number \<open>N\<close> from 0 to
  \<open>2 ^ 53\<close> (10 when the caller leaves it out), the counter is never negative: at the
  call number \<open>k\<close> it is \<open>N - k\<close>, and it is a whole number of at most \<open>N\<close> when the
  request ends; a further call is made only from a counter above 0, so a call at 0 is
  the last one; and whatever the receiver is and the network answers, the request ends
  after at most \<open>N + 1\<close> calls, since each followed redirect takes one from the counter.
\<close>

theorem counter_never_negative:
  assumes "redirects_left ro = Finite (of_nat N)" and "N \<le> 2 ^ 53"
  shows "\<exists>r. request P recv net ro = Some r
     \<and> length (attempts r) \<le> N + 1
     \<and> (\<forall>k < length (attempts r).
            maxRedirects (options (attempts r ! k)) = Some (Finite (of_nat (N - k)))
          \<and> k \<le> N
          \<and> (Suc k < length (attempts r) \<longrightarrow> k < N)
          \<and> (k = N \<longrightarrow> length (attempts r) = Suc k))
     \<and> (\<exists>m \<le> N. maxRedirects (final r) = Some (Finite (of_nat m)))"
proof -
  from bounded_run [OF assms, of P recv net 0] obtain r
    where r: "request_from P recv net 0 ro = Some r" and bound: "length (attempts r) \<le> Suc N"
      and at: "\<forall>k < length (attempts r).
              maxRedirects (options (attempts r ! k)) = Some (Finite (of_nat (N - k)))"
      and last: "\<exists>m \<le> N. maxRedirects (final r) = Some (Finite (of_nat m))"
    by blast
  have "maxRedirects (options (attempts r ! k)) = Some (Finite (of_nat (N - k)))
          \<and> k \<le> N
          \<and> (Suc k < length (attempts r) \<longrightarrow> k < N)
          \<and> (k = N \<longrightarrow> length (attempts r) = Suc k)"
    if "k < length (attempts r)" for k
    using that at bound by auto
  with r bound last show ?thesis
    by (auto simp: request_def)
qed

text \<open>
  An example: the server redirects every call, and the counter starts at 2. Three calls
  are made, at the counters 2, 1 and 0, and the third response is collected.
\<close>

theorem counter_never_negative_witness:
  "counters (request example_platform Module (redirects_always_to ''http://example.com/a'')
     ((only_url (Some ''http://example.com/a''))\<lparr>maxRedirects := Some (Finite 2)\<rparr>))
   = Some [Some (Finite 2), Some (Finite 1), Some (Finite 0)]"
proof -
  let ?ro = "(only_url (Some ''http://example.com/a''))\<lparr>maxRedirects := Some (Finite 2)\<rparr>"
  let ?net = "redirects_always_to ''http://example.com/a''"
  have start: "redirects_left ?ro = Finite (of_nat 2)" and small: "(2::nat) \<le> 2 ^ 53"
    by (simp_all add: redirects_left_def only_url_def)
  from counter_never_negative [OF start small, of example_platform Module ?net] obtain r
    where r: "request example_platform Module ?net ?ro = Some r" and "length (attempts r) \<le> 3"
      and at: "\<forall>k < length (attempts r).
        maxRedirects (options (attempts r ! k)) = Some (Finite (of_nat (2 - k)))
        \<and> (k = 2 \<longrightarrow> length (attempts r) = Suc k)"
    by auto
  have "map_option (\<lambda>r. length (attempts r)) (request example_platform Module ?net ?ro) = Some 3"
    by (simp add: run_defs decrement_small)
  with r have three: "length (attempts r) = 3"
    by simp
  with at have "maxRedirects (options (attempts r ! 0)) = Some (Finite 2)"
    and "maxRedirects (options (attempts r ! 1)) = Some (Finite 1)"
    and "maxRedirects (options (attempts r ! 2)) = Some (Finite 0)"
    by simp_all
  moreover from three obtain a b c where "attempts r = [a, b, c]"
    by (auto simp: length_Suc_conv numeral_3_eq_3)
  ultimately show ?thesis
    using r by (simp add: counters_def)
qed

subsection \<open>A relative redirect from an https url\<close>

text \<open>
  C10, as stated: after a relative redirect from an https url the next call goes over
  plain http on port 80, the new url having no scheme. The new url is the hostname and
  the location put together (line 148), and that string can begin with a scheme: for the
  url \<^verbatim>\<open>https://https/\<close> and the location \<^verbatim>\<open>://foo\<close>, which has no hostname of its
  own, the new url is \<^verbatim>\<open>https://foo\<close>; nothing is put before it, and the next call
  goes to the https module on port 443.
\<close>

theorem relative_redirect_keeps_https:
  "calls_to (request example_platform Module (redirects_once_to ''://foo'') (only_url (Some ''https://https/'')))
   = Some [(Some ''https://https/'', Https, PortNum 443), (Some ''https://foo'', Https, PortNum 443)]"
  by (simp add: run_defs)

text \<open>
  C10, amended: when the function is called as a method of the module and the first
  call goes to an https url and gets a response with a status from 300 to 399 and a
  location that is not empty and whose parsed hostname is empty, with
  \<^verbatim>\<open>followRedirect\<close> true and \<^verbatim>\<open>maxRedirects\<close> above 0, there is a second call, and
  its url is made of the hostname of the url followed by the location. If that string
  begins with neither \<^verbatim>\<open>http://\<close> nor \<^verbatim>\<open>https://\<close>, the second call has
  \<^verbatim>\<open>http://\<close> put before it and goes to the http module, on port 80 when the url so
  made parses with the protocol \<^verbatim>\<open>http:\<close> and no port. The two calls are the first
  two entries of the calls of the request when it ends.
\<close>

theorem relative_redirect_goes_to_http:
  assumes "url ro = Some u" and "prefix ''https://'' u"
    and "followRedirect ro \<noteq> Some False" and "positive (redirects_left ro)"
    and "\<forall>c. net 0 c = Response st hs evs" and "300 \<le> st" and "st < 400"
    and "map_of hs ''location'' = Some loc" and "loc \<noteq> []"
    and "\<not> truthy (hostname (url_parse P loc))"
    and "\<not> has_scheme (to_string (hostname (url_parse P u)) @ loc)"
  shows "\<exists>ro1 c ro3 c3. call_at P Module net ro 0 = Some (ro1, c)
     \<and> url ro1 = Some u \<and> lib c = Https
     \<and> call_at P Module net ro 1 = Some (ro3, c3)
     \<and> url ro3 = Some (''http://'' @ to_string (hostname (url_parse P u)) @ loc)
     \<and> lib c3 = Http
     \<and> (port (url_parse P (''http://'' @ to_string (hostname (url_parse P u)) @ loc)) = None
        \<and> protocol (url_parse P (''http://'' @ to_string (hostname (url_parse P u)) @ loc)) = Some ''http:''
        \<longrightarrow> o_port c3 = PortNum 80)
     \<and> (\<forall>r. request P Module net ro = Some r \<longrightarrow>
          (\<exists>ab ab' rest. attempts r = \<lparr>options = ro1, issued = c, was_aborted = ab\<rparr>
             # \<lparr>options = ro3, issued = c3, was_aborted = ab'\<rparr> # rest))"
proof -
  let ?new = "to_string (hostname (url_parse P u)) @ loc"
  from assms(2) have scheme: "has_scheme u"
    by (simp add: has_scheme_def)
  from prepare_defaults [OF assms(1), of P] assms(3) scheme backfill_http(4) [OF assms(2)]
  obtain ro1 c where prep: "prepare P (defaults P ro) = Inr (ro1, c)"
    and ro1: "url ro1 = Some u" "followRedirect ro1 = Some True"
      "maxRedirects ro1 = Some (redirects_left ro)"
    and c: "lib c = Https"
    by (auto simp: backfill_http(3))
  let ?ro2 = "ro1\<lparr>url := Some ?new, maxRedirects := map_option decrement (maxRedirects ro1)\<rparr>"
  from assms(4-10) ro1 have follow: "attempt P ro1 (net 0 c) = Follow ?ro2"
    by (simp add: attempt_def on_response_def truthy_def to_string_def Let_def)
  have "url ?ro2 = Some ?new"
    by simp
  from prepare_defaults [OF this, of P] backfill_http(1,2) [OF assms(11)]
  obtain ro3 c3 where prep3: "prepare P (defaults P ?ro2) = Inr (ro3, c3)"
    and ro3: "url ro3 = Some (''http://'' @ ?new)" and c3: "lib c3 = Http"
    and p3: "o_port c3 = define_port (url_parse P (''http://'' @ ?new))"
    by auto
  from prep have call0: "call_at P Module net ro 0 = Some (ro1, c)"
    by (simp add: call_at_def call_from_0)
  from prep follow prep3 have call1: "call_at P Module net ro 1 = Some (ro3, c3)"
    by (simp add: call_at_def)
  have calls: "\<exists>ab ab' rest. attempts r = \<lparr>options = ro1, issued = c, was_aborted = ab\<rparr>
             # \<lparr>options = ro3, issued = c3, was_aborted = ab'\<rparr> # rest"
    if "request P Module net ro = Some r" for r
  proof -
    from call_in_run [OF that [unfolded request_def] call0 [unfolded call_at_def]]
      call_in_run [OF that [unfolded request_def] call1 [unfolded call_at_def]]
    obtain a b rest where "attempts r = a # b # rest" and "options a = ro1" and "issued a = c"
      and "options b = ro3" and "issued b = c3"
      by (cases "attempts r"; cases "tl (attempts r)") auto
    then show ?thesis
      by (cases a; cases b) auto
  qed
  from p3 have "port (url_parse P (''http://'' @ ?new)) = None
        \<and> protocol (url_parse P (''http://'' @ ?new)) = Some ''http:''
        \<longrightarrow> o_port c3 = PortNum 80"
    by (simp add: define_port_def)
  with call0 call1 calls ro1 c ro3 c3 show ?thesis
    by simp
qed

text \<open>An example: from \<^verbatim>\<open>https://example.com/a\<close> to the location \<^verbatim>\<open>/b\<close>.\<close>

theorem relative_redirect_goes_to_http_witness:
  "calls_to (request example_platform Module (redirects_once_to ''/b'') (only_url (Some ''https://example.com/a'')))
   = Some [(Some ''https://example.com/a'', Https, PortNum 443),
      (Some ''http://example.com/b'', Http, PortNum 80)]"
proof -
  let ?net = "redirects_once_to ''/b''"
  let ?ro = "only_url (Some ''https://example.com/a'')"
  have h: "url ?ro = Some ''https://example.com/a''" "prefix ''https://'' ''https://example.com/a''"
    "followRedirect ?ro \<noteq> Some False" "positive (redirects_left ?ro)"
    "\<forall>c. ?net 0 c = Response 302 [(''location'', ''/b'')] []" "(300::nat) \<le> 302" "(302::nat) < 400"
    "map_of [(''location'', ''/b'')] ''location'' = Some ''/b''" "''/b'' \<noteq> []"
    "\<not> truthy (hostname (url_parse example_platform ''/b''))"
    "\<not> has_scheme (to_string (hostname (url_parse example_platform ''https://example.com/a'')) @ ''/b'')"
    by (simp_all add: only_url_def redirects_left_def truthy_def has_scheme_def to_string_def
        example_platform_def example_parse_def parsed_def redirects_once_to_def)
  have parse: "to_string (hostname (url_parse example_platform ''https://example.com/a'')) = ''example.com''"
    "url_parse example_platform ''http://example.com/b''
      = \<lparr>protocol = Some ''http:'', hostname = Some ''example.com'', port = None, path = Some ''/b''\<rparr>"
    by (simp_all add: to_string_def example_platform_def example_parse_def parsed_def)
  obtain r where r: "request example_platform Module ?net ?ro = Some r"
    and first: "map (\<lambda>a. o_port (issued a)) (take 1 (attempts r)) = [PortNum 443]"
    and two: "length (attempts r) = 2"
    by (simp add: run_defs)
  from relative_redirect_goes_to_http [where net = ?net, OF h] r obtain a b rest
    where "attempts r = a # b # rest" and "url (options a) = Some ''https://example.com/a''"
      and "lib (issued a) = Https" and "url (options b) = Some ''http://example.com/b''"
      and "lib (issued b) = Http" and "o_port (issued b) = PortNum 80"
    by (force simp: parse)
  with first two r show ?thesis
    by (simp add: calls_to_def where_to_def)
qed

end
